theory Spec2Isabelle
  imports Main "HOL-Library.Multiset"
begin

section \<open>JavaScript values read by the gateway\<close>

text \<open>
  The gateway (\<^verbatim>\<open>server.js\<close>) is dynamically typed. The model keeps the shapes the
  code distinguishes with \<^verbatim>\<open>typeof\<close> and with truthiness tests. Numbers are modelled
  as integers plus \<^verbatim>\<open>NaN\<close>: timestamps are whole seconds and unread counts are whole
  numbers. The integers of magnitude at most \<open>2^53\<close> are exactly the JavaScript numbers
  they denote, and sums, differences and comparisons of them have the sign they have in
  JavaScript. Fractions and the infinities lie outside the model. Strings are sequences of
  UTF-8 bytes.
\<close>

datatype jsnum = Num int | NaN

text \<open>
  A timestamp field of a message: absent, \<^verbatim>\<open>null\<close>, a number, a string, or an
  object (a protobuf \<^verbatim>\<open>Long\<close>) given with the number that \<^verbatim>\<open>Number(obj)\<close> yields.
\<close>

datatype jsval = Undefined | Null | Number jsnum | Str string | Obj jsnum

fun truthy :: "jsval \<Rightarrow> bool" where
  "truthy Undefined = False"
| "truthy Null = False"
| "truthy (Number (Num n)) = (n \<noteq> 0)"
| "truthy (Number NaN) = False"
| "truthy (Str s) = (s \<noteq> [])"
| "truthy (Obj n) = True"

definition is_digit :: "char \<Rightarrow> bool" where
  "is_digit c = (c \<in> set ''0123456789'')"

definition digit_val :: "char \<Rightarrow> int" where
  "digit_val c = int (of_char c) - 48"

text \<open>Value of a string of decimal digits, most significant digit first; the exact integer.\<close>

definition digits_val :: "string \<Rightarrow> int" where
  "digits_val ds = foldl (\<lambda>acc c. acc * 10 + digit_val c) 0 ds"

text \<open>
  The number that JavaScript stores for an integer: the integer itself below \<open>2^53\<close>
  (9007199254740992), and from there on the nearest integer with a significand of 53
  bits, a tie going to the even significand. \<open>halvings n\<close> is the number of bits by
  which \<open>n\<close> exceeds 53 bits. (From about \<open>1.8 * 10^308\<close> on JavaScript stores
  \<^verbatim>\<open>Infinity\<close>, which is outside the model.)
\<close>

function halvings :: "int \<Rightarrow> nat" where
  "halvings n = (if n < 9007199254740992 then 0 else Suc (halvings (n div 2)))"
  by pat_completeness auto
termination
  by (relation "measure nat") auto

declare halvings.simps [simp del]

definition to_double :: "int \<Rightarrow> int" where
  "to_double v =
     (let n = \<bar>v\<bar>
      in if n < 9007199254740992 then v
         else
           let sh = halvings n;
               q = n div 2 ^ sh;
               r = n mod 2 ^ sh;
               q' = (if 2 ^ (sh - 1) < r \<or> (r = 2 ^ (sh - 1) \<and> odd q) then q + 1 else q)
           in sgn v * (q' * 2 ^ sh))"

text \<open>
  The white space and line terminators that \<^verbatim>\<open>parseInt\<close> and \<^verbatim>\<open>Number\<close> strip, in
  UTF-8: TAB, LF, VT, FF, CR, SP, U+00A0, U+1680, U+2000 to U+200A, U+2028, U+2029,
  U+202F, U+205F, U+3000 and U+FEFF.
\<close>

definition white_space :: "string list" where
  "white_space =
     [[CHR 0x09], [CHR 0x0A], [CHR 0x0B], [CHR 0x0C], [CHR 0x0D], [CHR 0x20],
      [CHR 0xC2, CHR 0xA0], [CHR 0xE1, CHR 0x9A, CHR 0x80]]
     @ map (\<lambda>b. [CHR 0xE2, CHR 0x80, b])
         [CHR 0x80, CHR 0x81, CHR 0x82, CHR 0x83, CHR 0x84, CHR 0x85, CHR 0x86, CHR 0x87,
          CHR 0x88, CHR 0x89, CHR 0x8A, CHR 0xA8, CHR 0xA9, CHR 0xAF]
     @ [[CHR 0xE2, CHR 0x81, CHR 0x9F], [CHR 0xE3, CHR 0x80, CHR 0x80],
        [CHR 0xEF, CHR 0xBB, CHR 0xBF]]"

text \<open>Removing, as long as there is one, a leading occurrence of one of the strings \<open>ws\<close>.\<close>

function skip_all :: "string list \<Rightarrow> string \<Rightarrow> string" where
  "skip_all ws s =
     (case find (\<lambda>w. w \<noteq> [] \<and> take (length w) s = w) ws of
        None \<Rightarrow> s
      | Some w \<Rightarrow> skip_all ws (drop (length w) s))"
  by pat_completeness auto
termination
proof (relation "measure (\<lambda>(ws, s). length s)")
  show "wf (measure (\<lambda>(ws, s). length s))" by simp
next
  fix ws :: "string list" and s w :: string
  assume "find (\<lambda>w. w \<noteq> [] \<and> take (length w) s = w) ws = Some w"
  then have "w \<noteq> []" "take (length w) s = w" by (auto simp: find_Some_iff)
  then have "s \<noteq> []" by auto
  with \<open>w \<noteq> []\<close> show "((ws, drop (length w) s), (ws, s)) \<in> measure (\<lambda>(ws, s). length s)" by simp
qed

declare skip_all.simps [simp del]

definition trim_start :: "string \<Rightarrow> string" where
  "trim_start s = skip_all white_space s"

definition trim_end :: "string \<Rightarrow> string" where
  "trim_end s = rev (skip_all (map rev white_space) (rev s))"

text \<open>
  \<^verbatim>\<open>parseInt(s, 10)\<close>: leading white space is skipped, one sign is accepted, then the
  longest run of digits is read; with no digit the result is \<^verbatim>\<open>NaN\<close>.
\<close>

definition parseInt10 :: "string \<Rightarrow> jsnum" where
  "parseInt10 s =
     (let t = trim_start s;
          neg = (t \<noteq> [] \<and> hd t = CHR ''-'');
          u = (if t \<noteq> [] \<and> (hd t = CHR ''-'' \<or> hd t = CHR ''+'') then tl t else t);
          ds = takeWhile is_digit u
      in if ds = [] then NaN else Num (to_double (if neg then - digits_val ds else digits_val ds)))"

text \<open>
  \<^verbatim>\<open>Number(s)\<close> on a string: surrounding white space is trimmed, the empty string is 0,
  and an optionally signed run of decimal digits is its value. On every string that is
  not a numeric literal, such as \<^verbatim>\<open>abc\<close>, the result is \<^verbatim>\<open>NaN\<close>, as in JavaScript.
  The other numeric literals (a fraction or an exponent as in \<^verbatim>\<open>1.5\<close> and \<^verbatim>\<open>1e3\<close>, a
  radix prefix as in \<^verbatim>\<open>0x10\<close>, \<^verbatim>\<open>Infinity\<close>) are not modelled: the definition gives
  \<^verbatim>\<open>NaN\<close> on them where JavaScript gives a number. The statements below either do not
  depend on the number that a timestamp denotes, or they are made for timestamps on which
  this conversion yields a number.
\<close>

definition Number_of_string :: "string \<Rightarrow> jsnum" where
  "Number_of_string s =
     (let t = trim_end (trim_start s);
          neg = (t \<noteq> [] \<and> hd t = CHR ''-'');
          u = (if t \<noteq> [] \<and> (hd t = CHR ''-'' \<or> hd t = CHR ''+'') then tl t else t)
      in if t = [] then Num 0
         else if u \<noteq> [] \<and> list_all is_digit u
           then Num (to_double (if neg then - digits_val u else digits_val u))
         else NaN)"

text \<open>\<^verbatim>\<open>Number(v)\<close>, the conversion also applied by the arithmetic operators.\<close>

fun ToNumber :: "jsval \<Rightarrow> jsnum" where
  "ToNumber Undefined = NaN"
| "ToNumber Null = Num 0"
| "ToNumber (Number n) = n"
| "ToNumber (Str s) = Number_of_string s"
| "ToNumber (Obj n) = n"

fun js_minus :: "jsnum \<Rightarrow> jsnum \<Rightarrow> jsnum" where
  "js_minus (Num a) (Num b) = Num (a - b)"
| "js_minus _ _ = NaN"

text \<open>
  \<^verbatim>\<open>Array.prototype.sort(cmp)\<close>. The sort is stable, so for a comparator that is a
  consistent ordering of the elements (it returns a number for every pair, and these
  numbers order the elements) the result is determined, and it is the one computed here by
  stable insertion. A comparator that returns \<^verbatim>\<open>NaN\<close> for some pair is not consistent:
  the language leaves the order to the engine, and the order of Node's merge sort is not
  modelled. The definition treats \<^verbatim>\<open>NaN\<close> as a tie; for arrays of more than two
  elements that need not be the order Node produces. Every statement below about the order
  of a sorted array is therefore made for comparators that return numbers on the array,
  or for an array of two elements, which Node leaves as it is when the comparison is
  \<^verbatim>\<open>NaN\<close>.
\<close>

fun cmp_le0 :: "jsnum \<Rightarrow> bool" where
  "cmp_le0 (Num v) = (v \<le> 0)"
| "cmp_le0 NaN = True"

fun js_insert :: "('a \<Rightarrow> 'a \<Rightarrow> jsnum) \<Rightarrow> 'a \<Rightarrow> 'a list \<Rightarrow> 'a list" where
  "js_insert cmp x [] = [x]"
| "js_insert cmp x (y # ys) = (if cmp_le0 (cmp x y) then x # y # ys else y # js_insert cmp x ys)"

definition js_sort :: "('a \<Rightarrow> 'a \<Rightarrow> jsnum) \<Rightarrow> 'a list \<Rightarrow> 'a list" where
  "js_sort cmp xs = foldr (js_insert cmp) xs []"

section \<open>Messages\<close>

text \<open>\<^verbatim>\<open>msg.key\<close>: the fields the gateway reads. An absent string field is \<open>None\<close>.\<close>

record msgkey =
  key_remoteJid :: "string option"
  key_id :: "string option"
  key_fromMe :: bool

text \<open>
  \<^verbatim>\<open>msg.message\<close>, the content payload: the fields the response formatter inspects and
  the nested \<^verbatim>\<open>messageTimestamp\<close> that \<^verbatim>\<open>getTs\<close> falls back to. For the media kinds,
  \<open>None\<close> is an absent sub-object and \<open>Some c\<close> one with caption or file name \<open>c\<close>.
\<close>

record content =
  c_messageTimestamp :: jsval
  conversation :: "string option"
  extendedText :: "string option"
  imageMessage :: "string option option"
  videoMessage :: "string option option"
  audioMessage :: bool
  documentMessage :: "string option option"
  stickerMessage :: bool

record wamsg =
  msg_key :: "msgkey option"
  messageTimestamp :: jsval
  msg_timestamp :: jsval
  msg_message :: "content option"

text \<open>\<^verbatim>\<open>m.key?.id\<close>\<close>

definition key_id_of :: "wamsg \<Rightarrow> string option" where
  "key_id_of m = (case msg_key m of None \<Rightarrow> None | Some k \<Rightarrow> key_id k)"

text \<open>Truthiness of an optional string: present and not empty.\<close>

definition truthy_str :: "string option \<Rightarrow> bool" where
  "truthy_str s = (case s of None \<Rightarrow> False | Some t \<Rightarrow> t \<noteq> [])"

section \<open>Insertion-ordered maps\<close>

text \<open>
  A JavaScript \<^verbatim>\<open>Map\<close> keeps its keys in insertion order, and the gateway iterates over
  them; it is modelled as an association list without repeated keys. \<^verbatim>\<open>set\<close> on a
  present key replaces the value in place, on a new key it appends.
\<close>

type_synonym ('k, 'v) jsmap = "('k \<times> 'v) list"

definition jm_get :: "('k, 'v) jsmap \<Rightarrow> 'k \<Rightarrow> 'v option" where
  "jm_get m k = map_of m k"

definition jm_has :: "('k, 'v) jsmap \<Rightarrow> 'k \<Rightarrow> bool" where
  "jm_has m k = (map_of m k \<noteq> None)"

fun jm_set :: "('k, 'v) jsmap \<Rightarrow> 'k \<Rightarrow> 'v \<Rightarrow> ('k, 'v) jsmap" where
  "jm_set [] k v = [(k, v)]"
| "jm_set ((k', v') # m) k v = (if k' = k then (k, v) # m else (k', v') # jm_set m k v)"

definition jm_delete :: "('k, 'v) jsmap \<Rightarrow> 'k \<Rightarrow> ('k, 'v) jsmap" where
  "jm_delete m k = filter (\<lambda>kv. fst kv \<noteq> k) m"

section \<open>The bounded message ledger\<close>

text \<open>
  The append step shared by the \<^verbatim>\<open>messages.upsert\<close> handler and both loops of the
  \<^verbatim>\<open>messaging-history.set\<close> handler:
  \<^verbatim>\<open>
  const exists = chatMessages.some(m => m.key?.id === messageId);
  if (!exists) {
      chatMessages.push(message);
      if (chatMessages.length > 100) { chatMessages.shift(); }
  }
  \<close>
\<close>

definition exists_id :: "wamsg list \<Rightarrow> string option \<Rightarrow> bool" where
  "exists_id chatMessages messageId = list_ex (\<lambda>m. key_id_of m = messageId) chatMessages"

definition ledger_append :: "wamsg list \<Rightarrow> wamsg \<Rightarrow> wamsg list" where
  "ledger_append chatMessages message =
     (if exists_id chatMessages (key_id_of message) then chatMessages
      else (let pushed = chatMessages @ [message]
            in if length pushed > 100 then tl pushed else pushed))"


section \<open>Chats, contacts and the session registry\<close>

text \<open>
  An element of a chat's embedded \<^verbatim>\<open>messages\<close> array. History sync delivers wrappers
  \<^verbatim>\<open>{message: <full message>}\<close>; an element may also be a message object itself.
\<close>

datatype embedded = Wrapped wamsg | Direct wamsg

text \<open>
  A raw chat object of the chat directory, with the properties the gateway reads.
  \<open>chat_messages\<close> is \<^verbatim>\<open>chat.messages\<close> and \<open>raw_messages\<close> is
  \<^verbatim>\<open>chat.raw?.messages\<close>; \<open>None\<close> is an absent array. \<open>pinned\<close> is the truthiness
  of \<^verbatim>\<open>chat.pinned\<close>, the counts are whole numbers.
\<close>

record chat =
  chat_id :: "string option"
  chat_jid :: "string option"
  subject :: "string option"
  chat_name :: "string option"
  notify :: "string option"
  pushName :: "string option"
  unreadCount :: "int option"
  chat_count :: "int option"
  unread :: "int option"
  conversationTimestamp :: jsval
  pinned :: bool
  chat_messages :: "embedded list option"
  raw_messages :: "embedded list option"

record contact =
  contact_name :: "string option"
  contact_notify :: "string option"
  contact_pushName :: "string option"
  phoneNumber :: "string option"

text \<open>The connection handle: an identity and whether \<^verbatim>\<open>sock.user\<close> is set.\<close>

record sock =
  sock_handle :: nat
  sock_user :: bool

text \<open>
  The process-wide tables of \<^verbatim>\<open>server.js\<close>. \<open>timers\<close> lists the pending
  \<^verbatim>\<open>setTimeout(() => startSocket(sessionName), delay)\<close> calls as (delay in ms,
  session name); \<open>credsSaved\<close> logs the calls of \<^verbatim>\<open>saveCreds\<close>.
\<close>

record state =
  sockets :: "(string, sock) jsmap"
  qrCodes :: "(string, string option) jsmap"
  sessionChats :: "(string, (string, chat) jsmap) jsmap"
  sessionMessages :: "(string, (string, wamsg list) jsmap) jsmap"
  timers :: "(nat \<times> string) list"
  credsSaved :: "string list"

definition get_or_empty :: "('k, ('a \<times> 'b) list) jsmap \<Rightarrow> 'k \<Rightarrow> ('a \<times> 'b) list" where
  "get_or_empty m k = (case jm_get m k of None \<Rightarrow> [] | Some v \<Rightarrow> v)"

text \<open>The stored array of one chat; an absent key reads as the array about to be created.\<close>

definition ledger_of :: "(string, wamsg list) jsmap \<Rightarrow> string \<Rightarrow> wamsg list" where
  "ledger_of store jid = (case jm_get store jid of None \<Rightarrow> [] | Some ms \<Rightarrow> ms)"

section \<open>Event handlers\<close>

subsection \<open>\<^verbatim>\<open>messages.upsert\<close>\<close>

text \<open>
  \<^verbatim>\<open>chatId.split('@')[0]\<close>
\<close>

definition before_at :: "string \<Rightarrow> string" where
  "before_at s = takeWhile (\<lambda>c. c \<noteq> CHR ''@'') s"

definition basic_chat :: "string \<Rightarrow> wamsg \<Rightarrow> chat" where
  "basic_chat chatId message =
     \<lparr>chat_id = Some chatId, chat_jid = None, subject = None,
      chat_name = Some (before_at chatId), notify = None, pushName = None,
      unreadCount = None, chat_count = None, unread = None,
      conversationTimestamp = messageTimestamp message, pinned = False,
      chat_messages = None, raw_messages = None\<rparr>"

text \<open>
  One iteration of the handler's loop. \<^verbatim>\<open>messageStore\<close> is the session's entry of
  \<^verbatim>\<open>sessionMessages\<close>, which \<^verbatim>\<open>startSocket\<close> creates before it registers the handler.
\<close>

definition upsert_one :: "string \<Rightarrow> state \<Rightarrow> wamsg \<Rightarrow> state" where
  "upsert_one sessionName s message =
     (case msg_key message of
        None \<Rightarrow> s
      | Some k \<Rightarrow>
          (case key_remoteJid k of
             None \<Rightarrow> s
           | Some chatId \<Rightarrow>
               if chatId = [] then s
               else
                 let messageStore = get_or_empty (sessionMessages s) sessionName;
                     chatMessages = ledger_of messageStore chatId;
                     messageStore' = jm_set messageStore chatId (ledger_append chatMessages message);
                     chatMap = get_or_empty (sessionChats s) sessionName;
                     chatMap' = (if jm_has chatMap chatId then chatMap
                                 else jm_set chatMap chatId (basic_chat chatId message))
                 in s\<lparr>sessionMessages := jm_set (sessionMessages s) sessionName messageStore',
                      sessionChats := jm_set (sessionChats s) sessionName chatMap'\<rparr>))"

definition messages_upsert :: "string \<Rightarrow> wamsg list \<Rightarrow> state \<Rightarrow> state" where
  "messages_upsert sessionName messages s = foldl (upsert_one sessionName) s messages"

subsection \<open>\<^verbatim>\<open>chats.update\<close>\<close>

definition chat_update_one :: "(string, chat) jsmap \<Rightarrow> chat \<Rightarrow> (string, chat) jsmap" where
  "chat_update_one chatMap c =
     (case chat_id c of
        None \<Rightarrow> chatMap
      | Some i \<Rightarrow> if i = [] then chatMap else jm_set chatMap i c)"

definition chats_update :: "string \<Rightarrow> chat list \<Rightarrow> state \<Rightarrow> state" where
  "chats_update sessionName chats s =
     s\<lparr>sessionChats := jm_set (sessionChats s) sessionName
          (foldl chat_update_one (get_or_empty (sessionChats s) sessionName) chats)\<rparr>"

subsection \<open>\<^verbatim>\<open>messaging-history.set\<close>\<close>

text \<open>
  \<^verbatim>\<open>if (msg.messageTimestamp && typeof msg.messageTimestamp === 'string')
      msg.messageTimestamp = parseInt(msg.messageTimestamp, 10);\<close>
\<close>

definition normalize_ts :: "wamsg \<Rightarrow> wamsg" where
  "normalize_ts msg =
     (case messageTimestamp msg of
        Str t \<Rightarrow> if t \<noteq> [] then msg\<lparr>messageTimestamp := Number (parseInt10 t)\<rparr> else msg
      | _ \<Rightarrow> msg)"

text \<open>
  \<^verbatim>\<open>const msg = msgWrapper.message || msgWrapper;\<close> followed by the test of
  \<^verbatim>\<open>msg.key\<close>. For an element that is itself a message with a content payload, \<open>msg\<close>
  is that payload, which has no \<^verbatim>\<open>key\<close>: the element is skipped.
\<close>

fun unwrap :: "embedded \<Rightarrow> wamsg option" where
  "unwrap (Wrapped w) = Some w"
| "unwrap (Direct m) = (if msg_message m = None then Some m else None)"

text \<open>Writing the unwrapped message object back where it was read from.\<close>

fun rewrap :: "embedded \<Rightarrow> wamsg \<Rightarrow> embedded" where
  "rewrap (Wrapped _) w = Wrapped w"
| "rewrap (Direct _) m = Direct m"

text \<open>\<^verbatim>\<open>chat.messages || chat.raw?.messages || []\<close> (an array is truthy, also when empty).\<close>

definition embedded_of :: "chat \<Rightarrow> embedded list" where
  "embedded_of c =
     (case chat_messages c of
        Some es \<Rightarrow> es
      | None \<Rightarrow> (case raw_messages c of Some es \<Rightarrow> es | None \<Rightarrow> []))"

definition set_embedded :: "chat \<Rightarrow> embedded list \<Rightarrow> chat" where
  "set_embedded c es =
     (case chat_messages c of
        Some _ \<Rightarrow> c\<lparr>chat_messages := Some es\<rparr>
      | None \<Rightarrow> (case raw_messages c of Some _ \<Rightarrow> c\<lparr>raw_messages := Some es\<rparr> | None \<Rightarrow> c))"

text \<open>
  One embedded element of a chat of \<^verbatim>\<open>history.chats\<close>. The timestamp is normalised in
  place, on the object that stays embedded in the chat, and only when the message is new.
  The result is the element as it is afterwards and the session's message store.
\<close>

definition history_embedded_one ::
  "string \<Rightarrow> (string, wamsg list) jsmap \<Rightarrow> embedded \<Rightarrow> embedded \<times> (string, wamsg list) jsmap" where
  "history_embedded_one chatId messageStore msgWrapper =
     (case unwrap msgWrapper of
        None \<Rightarrow> (msgWrapper, messageStore)
      | Some msg \<Rightarrow>
          (case msg_key msg of
             None \<Rightarrow> (msgWrapper, messageStore)
           | Some k \<Rightarrow>
               let jid = (if truthy_str (key_remoteJid k) then the (key_remoteJid k) else chatId)
               in if jid = [] \<or> \<not> truthy_str (key_id k) then (msgWrapper, messageStore)
                  else
                    let storedMessages = ledger_of messageStore jid
                    in if exists_id storedMessages (key_id k)
                       then (msgWrapper, jm_set messageStore jid storedMessages)
                       else (rewrap msgWrapper (normalize_ts msg),
                             jm_set messageStore jid
                               (ledger_append storedMessages (normalize_ts msg)))))"

fun history_embedded ::
  "string \<Rightarrow> (string, wamsg list) jsmap \<Rightarrow> embedded list \<Rightarrow> embedded list \<times> (string, wamsg list) jsmap" where
  "history_embedded chatId messageStore [] = ([], messageStore)"
| "history_embedded chatId messageStore (e # es) =
     (let (e', messageStore') = history_embedded_one chatId messageStore e;
          (es', messageStore'') = history_embedded chatId messageStore' es
      in (e' # es', messageStore''))"

definition history_chat_one ::
  "(string, chat) jsmap \<times> (string, wamsg list) jsmap \<Rightarrow> chat
     \<Rightarrow> (string, chat) jsmap \<times> (string, wamsg list) jsmap" where
  "history_chat_one acc c =
     (case chat_id c of
        None \<Rightarrow> acc
      | Some i \<Rightarrow>
          if i = [] then acc
          else
            let (es', messageStore') = history_embedded i (snd acc) (embedded_of c)
            in (jm_set (fst acc) i (set_embedded c es'), messageStore'))"

text \<open>The loop over \<^verbatim>\<open>history.messages\<close>: no fallback for the chat id, no normalisation.\<close>

definition history_message_one ::
  "(string, wamsg list) jsmap \<Rightarrow> wamsg \<Rightarrow> (string, wamsg list) jsmap" where
  "history_message_one messageStore msg =
     (case msg_key msg of
        None \<Rightarrow> messageStore
      | Some k \<Rightarrow>
          if \<not> truthy_str (key_remoteJid k) \<or> \<not> truthy_str (key_id k) then messageStore
          else
            let jid = the (key_remoteJid k)
            in jm_set messageStore jid (ledger_append (ledger_of messageStore jid) msg))"

text \<open>The event: \<^verbatim>\<open>history.chats\<close> and \<^verbatim>\<open>history.messages\<close>, \<open>None\<close> when absent.\<close>

record history =
  h_chats :: "chat list option"
  h_messages :: "wamsg list option"

definition messaging_history_set :: "string \<Rightarrow> history \<Rightarrow> state \<Rightarrow> state" where
  "messaging_history_set sessionName h s =
     (let chatMap = get_or_empty (sessionChats s) sessionName;
          messageStore = get_or_empty (sessionMessages s) sessionName;
          (chatMap', messageStore') =
             (case h_chats h of
                None \<Rightarrow> (chatMap, messageStore)
              | Some cs \<Rightarrow> foldl history_chat_one (chatMap, messageStore) cs);
          messageStore'' =
             (case h_messages h of
                None \<Rightarrow> messageStore'
              | Some ms \<Rightarrow> foldl history_message_one messageStore' ms)
      in s\<lparr>sessionChats := jm_set (sessionChats s) sessionName chatMap',
           sessionMessages := jm_set (sessionMessages s) sessionName messageStore''\<rparr>)"


subsection \<open>\<^verbatim>\<open>connection.update\<close>\<close>

datatype connection = Connecting | Close | Open

text \<open>
  The fields of the update the handler reads: \<^verbatim>\<open>connection\<close> (\<open>None\<close> for an absent or
  any other value), \<^verbatim>\<open>lastDisconnect?.error?.output?.statusCode\<close> and \<^verbatim>\<open>qr\<close>.
\<close>

record conn_update =
  connection :: "connection option"
  statusCode :: "int option"
  qr :: "string option"

text \<open>\<^verbatim>\<open>qrImage.split(',')[1]\<close>\<close>

definition split_comma_1 :: "string \<Rightarrow> string option" where
  "split_comma_1 img =
     (let r = dropWhile (\<lambda>c. c \<noteq> CHR '','') img
      in if r = [] then None else Some (takeWhile (\<lambda>c. c \<noteq> CHR '','') (tl r)))"

text \<open>
  The handler that \<^verbatim>\<open>startSocket(sessionName)\<close> registers for its socket \<open>sock\<close>.
  \<open>loggedOut\<close> is the library's constant \<^verbatim>\<open>DisconnectReason.loggedOut\<close> and
  \<open>toDataURL\<close> the QR renderer (\<open>None\<close> where it throws); both are parameters.
\<close>

definition connection_update ::
  "int \<Rightarrow> (string \<Rightarrow> string option) \<Rightarrow> string \<Rightarrow> sock \<Rightarrow> conn_update \<Rightarrow> state \<Rightarrow> state" where
  "connection_update loggedOut toDataURL sessionName sk u s =
     (let s1 = (case qr u of
                  None \<Rightarrow> s
                | Some q \<Rightarrow>
                    if q = [] then s
                    else (case toDataURL q of
                            None \<Rightarrow> s
                          | Some qrImage \<Rightarrow>
                              s\<lparr>qrCodes := jm_set (qrCodes s) sessionName (split_comma_1 qrImage)\<rparr>))
      in case connection u of
           None \<Rightarrow> s1
         | Some Connecting \<Rightarrow>
             if jm_has (sockets s1) sessionName then s1
             else s1\<lparr>sockets := jm_set (sockets s1) sessionName sk\<rparr>
         | Some Close \<Rightarrow>
             let shouldReconnect = (statusCode u \<noteq> Some loggedOut);
                 s2 = s1\<lparr>sockets := jm_delete (sockets s1) sessionName,
                         qrCodes := jm_delete (qrCodes s1) sessionName,
                         sessionChats := jm_delete (sessionChats s1) sessionName\<rparr>
             in if shouldReconnect then s2\<lparr>timers := timers s2 @ [(3000, sessionName)]\<rparr> else s2
         | Some Open \<Rightarrow>
             s1\<lparr>sockets := jm_set (sockets s1) sessionName sk,
                qrCodes := jm_delete (qrCodes s1) sessionName,
                credsSaved := credsSaved s1 @ [sessionName]\<rparr>)"

section \<open>Reading the ledger: \<^verbatim>\<open>getMessagesForChat\<close>\<close>

datatype exn = URIError | RangeError | ReferenceError | UpstreamError string

text \<open>
  \<^verbatim>\<open>getTs\<close>, the helper inside the sort comparator. A truthy field of type string or
  object goes through \<^verbatim>\<open>Number(...)\<close>, a number is taken as it is.
\<close>

definition getTs :: "wamsg \<Rightarrow> jsnum" where
  "getTs msg =
     (if truthy (messageTimestamp msg) then ToNumber (messageTimestamp msg)
      else if truthy (msg_timestamp msg) then ToNumber (msg_timestamp msg)
      else (case msg_message msg of
              None \<Rightarrow> Num 0
            | Some c \<Rightarrow> if truthy (c_messageTimestamp c) then ToNumber (c_messageTimestamp c)
                        else Num 0))"

definition cmp_ts :: "wamsg \<Rightarrow> wamsg \<Rightarrow> jsnum" where
  "cmp_ts a b = js_minus (getTs a) (getTs b)"

text \<open>
  The comparator of the older variant of the file:
  \<^verbatim>\<open>typeof a.messageTimestamp === 'string' ? parseInt(a.messageTimestamp, 10)
                                          : (a.messageTimestamp || 0)\<close>
\<close>

definition getTs_v0 :: "wamsg \<Rightarrow> jsnum" where
  "getTs_v0 a =
     (case messageTimestamp a of
        Str t \<Rightarrow> parseInt10 t
      | v \<Rightarrow> if truthy v then ToNumber v else Num 0)"

text \<open>
  The search through the stored chat ids. \<open>dec\<close> is \<^verbatim>\<open>decodeURIComponent\<close>, a parameter;
  it is \<open>None\<close> where the builtin throws \<^verbatim>\<open>URIError\<close>. The three tests are evaluated
  left to right and the loop stops at the first stored id that passes.
\<close>

fun find_stored :: "(string \<Rightarrow> string option) \<Rightarrow> string \<Rightarrow> string list \<Rightarrow> exn + string option" where
  "find_stored dec jid [] = Inr None"
| "find_stored dec jid (storedJid # rest) =
     (if storedJid = jid then Inr (Some storedJid)
      else (case dec jid of
              None \<Rightarrow> Inl URIError
            | Some d \<Rightarrow>
                if storedJid = d then Inr (Some storedJid)
                else (case dec storedJid of
                        None \<Rightarrow> Inl URIError
                      | Some d' \<Rightarrow>
                          if d' = jid then Inr (Some storedJid)
                          else find_stored dec jid rest)))"

definition truthy_int :: "int option \<Rightarrow> bool" where
  "truthy_int n = (case n of None \<Rightarrow> False | Some v \<Rightarrow> v \<noteq> 0)"

text \<open>\<^verbatim>\<open>chat?.unreadCount || chat?.count || chat?.unread || 0\<close>\<close>

definition unread_of :: "chat option \<Rightarrow> int" where
  "unread_of c =
     (case c of
        None \<Rightarrow> 0
      | Some ch \<Rightarrow>
          if truthy_int (unreadCount ch) then the (unreadCount ch)
          else if truthy_int (chat_count ch) then the (chat_count ch)
          else if truthy_int (unread ch) then the (unread ch)
          else 0)"

text \<open>
  The function returns the messages and, since \<^verbatim>\<open>allMessages.sort(...)\<close> sorts the
  stored array itself, the state in which that array is sorted. \<open>Inl\<close> is an exception
  that leaves the function.
\<close>

definition getMessagesForChat ::
  "(string \<Rightarrow> string option) \<Rightarrow> state \<Rightarrow> string \<Rightarrow> string \<Rightarrow> int \<Rightarrow> exn + (wamsg list \<times> state)" where
  "getMessagesForChat dec s sessionName jid minCount =
     (case jm_get (sessionMessages s) sessionName of
        None \<Rightarrow> Inr ([], s)
      | Some messageMap \<Rightarrow>
          (case (if ledger_of messageMap jid \<noteq> [] then Inr (Some jid)
                 else find_stored dec jid (map fst messageMap)) of
             Inl e \<Rightarrow> Inl e
           | Inr None \<Rightarrow> Inr ([], s)
           | Inr (Some storedJid) \<Rightarrow>
               let allMessages = ledger_of messageMap storedJid
               in if allMessages = [] then Inr ([], s)
                  else
                    let chatv = (case jm_get (sessionChats s) sessionName of
                                   None \<Rightarrow> None
                                 | Some chatMap \<Rightarrow> jm_get chatMap jid);
                        need = max minCount (unread_of chatv);
                        start = max 0 (int (length allMessages) - need);
                        sorted = js_sort cmp_ts allMessages
                    in Inr (drop (nat start) sorted,
                            s\<lparr>sessionMessages := jm_set (sessionMessages s) sessionName
                                 (jm_set messageMap storedJid sorted)\<rparr>)))"


section \<open>The identity reconciler of \<^verbatim>\<open>GET /api/:session/chats\<close>\<close>

text \<open>\<^verbatim>\<open>s.endsWith(t)\<close>, \<^verbatim>\<open>s.includes(t)\<close> and \<^verbatim>\<open>s.replace(pat, rep)\<close> with a string pattern.\<close>

definition endsWith :: "string \<Rightarrow> string \<Rightarrow> bool" where
  "endsWith s t = (length t \<le> length s \<and> drop (length s - length t) s = t)"

fun str_includes :: "string \<Rightarrow> string \<Rightarrow> bool" where
  "str_includes [] t = (t = [])"
| "str_includes (c # cs) t = (take (length t) (c # cs) = t \<or> str_includes cs t)"

fun replace_first :: "string \<Rightarrow> string \<Rightarrow> string \<Rightarrow> string" where
  "replace_first pat rep [] = (if pat = [] then rep else [])"
| "replace_first pat rep (c # cs) =
     (if take (length pat) (c # cs) = pat then rep @ drop (length pat) (c # cs)
      else c # replace_first pat rep cs)"

text \<open>\<^verbatim>\<open>a || b || ...\<close> over optional strings: the first truthy one.\<close>

fun first_truthy :: "string option list \<Rightarrow> string option" where
  "first_truthy [] = None"
| "first_truthy (x # xs) = (if truthy_str x then x else first_truthy xs)"

definition or_else :: "string option \<Rightarrow> string \<Rightarrow> string" where
  "or_else x d = (case x of None \<Rightarrow> d | Some t \<Rightarrow> if t = [] then d else t)"

datatype chat_type = Group | Individual

text \<open>
  The formatted chat. \<open>lastMessageTime\<close> is the instant of the ISO string in
  milliseconds (the string and the instant determine each other), \<open>None\<close> for
  \<^verbatim>\<open>null\<close>.
\<close>

record fchat =
  f_id :: string
  originalId :: string
  f_name :: string
  f_type :: chat_type
  f_unreadCount :: int
  lastMessageTime :: "int option"
  f_pinned :: bool
  f_raw :: chat

text \<open>
  \<^verbatim>\<open>new Date(n * 1000).toISOString()\<close>: throws \<^verbatim>\<open>RangeError\<close> for a time value that
  is not a number or lies outside the range of dates.
\<close>

definition iso_of_seconds :: "jsnum \<Rightarrow> exn + int" where
  "iso_of_seconds n =
     (case n of
        NaN \<Rightarrow> Inl RangeError
      | Num v \<Rightarrow> if \<bar>v * 1000\<bar> \<le> 8640000000000000 then Inr (v * 1000) else Inl RangeError)"

text \<open>\<^verbatim>\<open>chatId.split(':')[0] || chatId.replace('@s.whatsapp.net', '')\<close>\<close>

definition phone_of :: "string \<Rightarrow> string" where
  "phone_of chatId =
     (let p = takeWhile (\<lambda>c. c \<noteq> CHR '':'') chatId
      in if p \<noteq> [] then p else replace_first ''@s.whatsapp.net'' [] chatId)"

text \<open>
  \<^verbatim>\<open>chatId.match(/^(\d+)@lid$/)\<close> with the length test on the captured digits, for a
  \<open>chatId\<close> already known to end with \<^verbatim>\<open>@lid\<close>.
\<close>

definition lid_digits :: "string \<Rightarrow> string option" where
  "lid_digits chatId =
     (let d = take (length chatId - 4) chatId
      in if d \<noteq> [] \<and> list_all is_digit d \<and> 10 \<le> length d \<and> length d \<le> 15
         then Some d else None)"

text \<open>
  Canonical id and display name of one raw chat id, or \<open>None\<close> for an id of unknown
  format, which the loop skips. \<open>contacts\<close> is the contact table of the session's store.
\<close>

definition classify :: "(string \<rightharpoonup> contact) \<Rightarrow> chat \<Rightarrow> string \<Rightarrow> (string \<times> chat_type \<times> string) option" where
  "classify contacts c chatId =
     (if endsWith chatId ''@g.us'' then
        Some (chatId, Group, or_else (first_truthy [subject c, chat_name c]) ''Group'')
      else if endsWith chatId ''@s.whatsapp.net'' then
        Some (chatId, Individual,
              or_else (first_truthy [chat_name c, notify c, pushName c]) (phone_of chatId))
      else if endsWith chatId ''@lid'' then
        (let ct = contacts chatId;
             resolvedName = (case ct of None \<Rightarrow> None
                             | Some k \<Rightarrow> first_truthy [contact_name k, contact_notify k, contact_pushName k]);
             resolvedPhone = (case ct of None \<Rightarrow> None
                              | Some k \<Rightarrow> if truthy_str (phoneNumber k) then phoneNumber k else None)
         in case resolvedPhone of
              Some ph \<Rightarrow> Some (ph @ ''@s.whatsapp.net'', Individual, or_else resolvedName ph)
            | None \<Rightarrow>
                (case lid_digits chatId of
                   Some d \<Rightarrow> Some (d @ ''@s.whatsapp.net'', Individual, or_else resolvedName d)
                 | None \<Rightarrow>
                     Some (chatId, Individual,
                           or_else (first_truthy [resolvedName, chat_name c, notify c, pushName c])
                             ''Unknown Contact'')))
      else None)"

text \<open>\<^verbatim>\<open>chat.unreadCount || chat.unread || 0\<close>\<close>

definition unread_field :: "chat \<Rightarrow> int" where
  "unread_field c =
     (if truthy_int (unreadCount c) then the (unreadCount c)
      else if truthy_int (unread c) then the (unread c)
      else 0)"

text \<open>
  The formatted chat of one element of the batch: \<open>Inr None\<close> where the loop
  \<^verbatim>\<open>continue\<close>s, \<open>Inl\<close> where building the record throws. The elements are chat
  objects, as the chat directory holds them.
\<close>

definition format_chat :: "(string \<rightharpoonup> contact) \<Rightarrow> chat \<Rightarrow> exn + fchat option" where
  "format_chat contacts c =
     (case first_truthy [chat_id c, chat_jid c] of
        None \<Rightarrow> Inr None
      | Some chatId \<Rightarrow>
          if chatId = ''status@broadcast'' \<or> str_includes chatId ''broadcast'' \<or> chatId = ''server@c.us''
          then Inr None
          else (case classify contacts c chatId of
                  None \<Rightarrow> Inr None
                | Some (canonicalId, chatType, chatName) \<Rightarrow>
                    (case (if truthy (conversationTimestamp c)
                           then map_sum id Some (iso_of_seconds (ToNumber (conversationTimestamp c)))
                           else Inr None) of
                       Inl e \<Rightarrow> Inl e
                     | Inr t \<Rightarrow>
                         Inr (Some \<lparr>f_id = canonicalId, originalId = chatId, f_name = chatName,
                                    f_type = chatType, f_unreadCount = unread_field c,
                                    lastMessageTime = t, f_pinned = pinned c, f_raw = c\<rparr>))))"

text \<open>The in-place update of the record already stored under the canonical id.\<close>

definition merge_into :: "fchat \<Rightarrow> fchat \<Rightarrow> fchat" where
  "merge_into existing formattedChat =
     (let e1 = (if f_name existing = ''Unknown'' \<and> f_name formattedChat \<noteq> ''Unknown''
                then existing\<lparr>f_name := f_name formattedChat\<rparr> else existing);
          e2 = e1\<lparr>f_unreadCount := f_unreadCount e1 + f_unreadCount formattedChat\<rparr>
      in case lastMessageTime formattedChat of
           None \<Rightarrow> e2
         | Some t \<Rightarrow>
             (case lastMessageTime e2 of
                None \<Rightarrow> e2\<lparr>lastMessageTime := Some t, f_raw := f_raw formattedChat\<rparr>
              | Some t' \<Rightarrow>
                  if t > t' then e2\<lparr>lastMessageTime := Some t, f_raw := f_raw formattedChat\<rparr>
                  else e2))"

definition merge_chat :: "(string, fchat) jsmap \<Rightarrow> fchat \<Rightarrow> (string, fchat) jsmap" where
  "merge_chat mergedChats formattedChat =
     (case jm_get mergedChats (f_id formattedChat) of
        Some existing \<Rightarrow> jm_set mergedChats (f_id formattedChat) (merge_into existing formattedChat)
      | None \<Rightarrow> jm_set mergedChats (f_id formattedChat) formattedChat)"

text \<open>The loop over the batch; an exception ends it.\<close>

fun merge_loop :: "(string \<rightharpoonup> contact) \<Rightarrow> (string, fchat) jsmap \<Rightarrow> chat list \<Rightarrow> exn + (string, fchat) jsmap" where
  "merge_loop contacts mergedChats [] = Inr mergedChats"
| "merge_loop contacts mergedChats (c # cs) =
     (case format_chat contacts c of
        Inl e \<Rightarrow> Inl e
      | Inr None \<Rightarrow> merge_loop contacts mergedChats cs
      | Inr (Some f) \<Rightarrow> merge_loop contacts (merge_chat mergedChats f) cs)"

text \<open>
  The comparator of the final sort. \<open>localeCompare\<close> is the platform's string collation,
  a parameter.
\<close>

definition cmp_chats :: "(string \<Rightarrow> string \<Rightarrow> jsnum) \<Rightarrow> fchat \<Rightarrow> fchat \<Rightarrow> jsnum" where
  "cmp_chats localeCompare a b =
     (case (lastMessageTime a, lastMessageTime b) of
        (Some ta, Some tb) \<Rightarrow> Num (tb - ta)
      | (Some ta, None) \<Rightarrow> Num (- 1)
      | (None, Some tb) \<Rightarrow> Num 1
      | (None, None) \<Rightarrow> localeCompare (f_name a) (f_name b))"

text \<open>
  The chat list of the response for a batch of raw chats: \<open>Inr\<close> the list sent with
  status 200, \<open>Inl\<close> the exception answered with status 500.
\<close>

definition reconcile ::
  "(string \<Rightarrow> string \<Rightarrow> jsnum) \<Rightarrow> (string \<rightharpoonup> contact) \<Rightarrow> chat list \<Rightarrow> exn + fchat list" where
  "reconcile localeCompare contacts chats =
     (case merge_loop contacts [] chats of
        Inl e \<Rightarrow> Inl e
      | Inr mergedChats \<Rightarrow> Inr (js_sort (cmp_chats localeCompare) (map snd mergedChats)))"


section \<open>The retrieval chain of \<^verbatim>\<open>GET /api/:session/messages/:jid\<close>\<close>

datatype mtype = TText | TImage | TVideo | TAudio | TDocument | TSticker | TUnknown

text \<open>
  A formatted message of the response. \<open>m_timestamp\<close> is the instant of the ISO string
  in milliseconds, \<open>None\<close> for \<^verbatim>\<open>null\<close>.
\<close>

record fmsg =
  m_id :: "string option"
  m_from :: string
  m_fromMe :: bool
  m_text :: string
  m_type :: mtype
  m_timestamp :: "int option"
  mightBeUnread :: bool
  m_raw :: wamsg

text \<open>The chain of tests on \<^verbatim>\<open>msg.message\<close> that yields the text and the type tag.\<close>

definition text_and_type :: "content option \<Rightarrow> string \<times> mtype" where
  "text_and_type c =
     (case c of
        None \<Rightarrow> ([], TUnknown)
      | Some m \<Rightarrow>
          if truthy_str (conversation m) then (the (conversation m), TText)
          else if truthy_str (extendedText m) then (the (extendedText m), TText)
          else (case imageMessage m of
                  Some cap \<Rightarrow> (or_else cap ''[Image]'', TImage)
                | None \<Rightarrow>
                    (case videoMessage m of
                       Some cap \<Rightarrow> (or_else cap ''[Video]'', TVideo)
                     | None \<Rightarrow>
                         if audioMessage m then (''[Audio]'', TAudio)
                         else (case documentMessage m of
                                 Some fileName \<Rightarrow> (''[Document] '' @ or_else fileName [], TDocument)
                               | None \<Rightarrow>
                                   if stickerMessage m then (''[Sticker]'', TSticker)
                                   else ([], TUnknown)))))"

text \<open>
  The timestamp of the formatted message: a truthy \<^verbatim>\<open>messageTimestamp\<close>, parsed with
  \<^verbatim>\<open>parseInt\<close> when it is a string, kept if it is a number above 0 that gives a valid
  date; a \<^verbatim>\<open>RangeError\<close> of \<^verbatim>\<open>toISOString\<close> is caught and leaves \<^verbatim>\<open>null\<close>.
\<close>

definition format_timestamp :: "jsval \<Rightarrow> int option" where
  "format_timestamp v =
     (if truthy v then
        (case (case v of Str t \<Rightarrow> parseInt10 t | _ \<Rightarrow> ToNumber v) of
           NaN \<Rightarrow> None
         | Num ts \<Rightarrow>
             if ts > 0 then (case iso_of_seconds (Num ts) of Inl e \<Rightarrow> None | Inr ms \<Rightarrow> Some ms)
             else None)
      else None)"

text \<open>\<open>now\<close> is \<^verbatim>\<open>Date.now()\<close>, a parameter.\<close>

definition format_message :: "int \<Rightarrow> string \<Rightarrow> wamsg \<Rightarrow> fmsg" where
  "format_message now jid msg =
     (let k = msg_key msg;
          fromv = (case k of None \<Rightarrow> jid | Some kk \<Rightarrow> or_else (key_remoteJid kk) jid);
          fromMe = (case k of None \<Rightarrow> False | Some kk \<Rightarrow> key_fromMe kk);
          timestamp = format_timestamp (messageTimestamp msg);
          isRecent = (case timestamp of None \<Rightarrow> False | Some t \<Rightarrow> now - t < 24 * 60 * 60 * 1000);
          (txt, ty) = text_and_type (msg_message msg)
      in \<lparr>m_id = key_id_of msg, m_from = fromv, m_fromMe = fromMe, m_text = txt, m_type = ty,
          m_timestamp = timestamp, mightBeUnread = (\<not> fromMe \<and> isRecent), m_raw = msg\<rparr>)"

definition time_of :: "fmsg \<Rightarrow> int" where
  "time_of a = (case m_timestamp a of None \<Rightarrow> 0 | Some t \<Rightarrow> t)"

definition cmp_fmsg :: "fmsg \<Rightarrow> fmsg \<Rightarrow> jsnum" where
  "cmp_fmsg a b =
     (if mightBeUnread a \<and> \<not> mightBeUnread b then Num (- 1)
      else if \<not> mightBeUnread a \<and> mightBeUnread b then Num 1
      else Num (time_of b - time_of a))"

text \<open>
  Formatting, the filter on the id, the sort, the truncation to \<open>finalLimit\<close> and the
  reversal.
\<close>

definition finalize :: "int \<Rightarrow> string \<Rightarrow> int \<Rightarrow> wamsg list \<Rightarrow> fmsg list" where
  "finalize now jid requestedLimit messages =
     (let formattedMessages = filter (\<lambda>m. truthy_str (m_id m)) (map (format_message now jid) messages);
          sorted = js_sort cmp_fmsg formattedMessages;
          finalLimit = min 20 (max 5 (min requestedLimit (int (length formattedMessages))))
      in rev (take (nat finalLimit) sorted))"

text \<open>
  The fallback on the messages embedded in the chat's raw payload. Each element with a
  message that has a truthy \<^verbatim>\<open>key.id\<close> is normalised in place and collected.
\<close>

definition raw_extract_one :: "embedded \<Rightarrow> embedded \<times> wamsg option" where
  "raw_extract_one msgWrapper =
     (case unwrap msgWrapper of
        None \<Rightarrow> (msgWrapper, None)
      | Some msg \<Rightarrow>
          if truthy_str (key_id_of msg)
          then (rewrap msgWrapper (normalize_ts msg), Some (normalize_ts msg))
          else (msgWrapper, None))"

definition raw_extract :: "embedded list \<Rightarrow> embedded list \<times> wamsg list" where
  "raw_extract rawMessages =
     (map (fst \<circ> raw_extract_one) rawMessages,
      List.map_filter (snd \<circ> raw_extract_one) rawMessages)"

text \<open>
  The write-back loops of the endpoint:
  \<^verbatim>\<open>
  for (const msg of messages) {
      const exists = msgStore.get(jid).some(m => m.key?.id === msg.key?.id);
      if (!exists) { msgStore.get(jid).push(msg); }
  }
  \<close>
\<close>

definition store_back_one :: "wamsg list \<Rightarrow> wamsg \<Rightarrow> wamsg list" where
  "store_back_one stored msg = (if exists_id stored (key_id_of msg) then stored else stored @ [msg])"

definition store_back :: "wamsg list \<Rightarrow> wamsg list \<Rightarrow> wamsg list" where
  "store_back stored messages = foldl store_back_one stored messages"

definition raw_fallback :: "state \<Rightarrow> string \<Rightarrow> string \<Rightarrow> wamsg list \<times> state" where
  "raw_fallback s sessionName jid =
     (case jm_get (sessionChats s) sessionName of
        None \<Rightarrow> ([], s)
      | Some chatMap \<Rightarrow>
          (case jm_get chatMap jid of
             None \<Rightarrow> ([], s)
           | Some c \<Rightarrow>
               if embedded_of c = [] then ([], s)
               else
                 let (es', messages) = raw_extract (embedded_of c);
                     msgStore = get_or_empty (sessionMessages s) sessionName;
                     msgStore' = jm_set msgStore jid (store_back (ledger_of msgStore jid) messages)
                 in (messages,
                     s\<lparr>sessionChats := jm_set (sessionChats s) sessionName
                          (jm_set chatMap jid (set_embedded c es')),
                        sessionMessages := jm_set (sessionMessages s) sessionName msgStore'\<rparr>)))"

text \<open>
  Strategy 2, the store attached to the socket. \<open>storeMessages\<close> is
  \<^verbatim>\<open>sock.store.messages\<close> of the fallback store defined in the file, read as: chat id to
  the values of its inner map in insertion order; \<open>None\<close> when the socket has no such
  store.
\<close>

definition or0 :: "wamsg \<Rightarrow> jsnum" where
  "or0 a = (if truthy (messageTimestamp a) then ToNumber (messageTimestamp a) else Num 0)"

definition cmp_store :: "wamsg \<Rightarrow> wamsg \<Rightarrow> jsnum" where
  "cmp_store a b = js_minus (or0 b) (or0 a)"

definition store_strategy :: "(string \<rightharpoonup> wamsg list) option \<Rightarrow> string \<Rightarrow> int \<Rightarrow> wamsg list" where
  "store_strategy storeMessages jid requestedLimit =
     (case storeMessages of
        None \<Rightarrow> []
      | Some sm \<Rightarrow>
          (case sm jid of
             None \<Rightarrow> []
           | Some storeArray \<Rightarrow> take (nat (max 5 requestedLimit)) (js_sort cmp_store storeArray)))"

text \<open>
  Strategy 3, the live fetch. \<open>loadMessages\<close> is \<^verbatim>\<open>sock.loadMessages\<close>, a parameter
  (\<open>Inl\<close> where the call throws or rejects, \<open>Inr []\<close> for an empty or absent result). An
  exception is caught and logged. After a non-empty result the code evaluates
  \<^verbatim>\<open>messageStore\<close>, which is not declared in the handler's scope: the
  \<^verbatim>\<open>ReferenceError\<close> lands in the same \<^verbatim>\<open>catch\<close>, so \<open>messages\<close> keeps the loaded
  messages and the statements that would store them are never reached.
\<close>

definition live_strategy :: "(string \<Rightarrow> int \<Rightarrow> exn + wamsg list) \<Rightarrow> string \<Rightarrow> wamsg list" where
  "live_strategy loadMessages jid =
     (case loadMessages jid 10 of
        Inl e \<Rightarrow> []
      | Inr loadedMessages \<Rightarrow> loadedMessages)"

text \<open>
  The JSON bodies: \<^verbatim>\<open>{error}\<close> and the message listing with its fields
  \<^verbatim>\<open>messages\<close>, \<^verbatim>\<open>total\<close>, \<^verbatim>\<open>unreadCount\<close>, \<^verbatim>\<open>jid\<close>, \<^verbatim>\<open>error\<close> and
  \<^verbatim>\<open>warning\<close> (the constant \<^verbatim>\<open>success: true\<close> is left out).
\<close>

datatype body =
    ErrorBody string
  | MessagesBody (b_messages: "fmsg list") (b_total: nat) (b_unreadCount: int) (b_jid: string)
      (b_error: "string option") (b_warning: "string option")

record http =
  status :: nat
  http_body :: body

text \<open>
  What a request leaves behind: the response, the state, and whether
  \<^verbatim>\<open>sock.loadMessages\<close> was called.
\<close>

record outcome =
  response :: http
  state_after :: state
  live_fetch :: bool

text \<open>The platform's parameters of the endpoint.\<close>

record env =
  decodeURIComponent :: "string \<Rightarrow> string option"
  date_now :: int
  storeMessages :: "(string \<rightharpoonup> wamsg list) option"
  loadMessages :: "string \<Rightarrow> int \<Rightarrow> exn + wamsg list"

definition exn_message :: "exn \<Rightarrow> string" where
  "exn_message e =
     (case e of
        URIError \<Rightarrow> ''URI malformed''
      | RangeError \<Rightarrow> ''Invalid time value''
      | ReferenceError \<Rightarrow> ''messageStore is not defined''
      | UpstreamError m \<Rightarrow> m)"

definition no_messages_warning :: string where
  "no_messages_warning =
     ''No messages available. This is a WhatsApp MD limitation - messages are only available if the chat was recently opened on the linked device.''"

text \<open>\<^verbatim>\<open>parseInt(req.query.limit) || 20\<close>, from the value of the \<^verbatim>\<open>parseInt\<close> call.\<close>

definition requested_limit :: "jsnum \<Rightarrow> int" where
  "requested_limit parsed = (case parsed of NaN \<Rightarrow> 20 | Num n \<Rightarrow> if n = 0 then 20 else n)"

text \<open>
  The body of the \<^verbatim>\<open>try\<close> block after the unread count: the strategies in order and
  the response. \<open>Inl\<close> is an exception that reaches the handler's \<^verbatim>\<open>catch\<close>.
\<close>

definition load_and_format :: "env \<Rightarrow> state \<Rightarrow> string \<Rightarrow> string \<Rightarrow> int \<Rightarrow> exn + outcome" where
  "load_and_format ev s sessionName jid requestedLimit =
     (let unreadCountv = unread_of (case jm_get (sessionChats s) sessionName of
                                      None \<Rightarrow> None
                                    | Some chatMap \<Rightarrow> jm_get chatMap jid)
      in case getMessagesForChat (decodeURIComponent ev) s sessionName jid (max 5 requestedLimit) of
           Inl e \<Rightarrow> Inl e
         | Inr (found, s1) \<Rightarrow>
             let (messages1, s2) = (if found \<noteq> [] then (found, s1) else raw_fallback s1 sessionName jid);
                 messages2 = (if messages1 = [] \<and> storeMessages ev \<noteq> None
                              then store_strategy (storeMessages ev) jid requestedLimit
                              else messages1);
                 fetch = (messages2 = []);
                 messages3 = (if fetch then live_strategy (loadMessages ev) jid else messages2);
                 finalMessages = finalize (date_now ev) jid requestedLimit messages3
             in Inr \<lparr>response =
                       \<lparr>status = 200,
                        http_body = MessagesBody finalMessages (length finalMessages) unreadCountv jid None
                                      (if messages3 = [] then Some no_messages_warning else None)\<rparr>,
                     state_after = s2,
                     live_fetch = fetch\<rparr>)"

text \<open>
  The handler. \<open>param\<close> is \<^verbatim>\<open>req.params.jid\<close> and \<open>parsedLimit\<close> the value of
  \<^verbatim>\<open>parseInt(req.query.limit)\<close>. The first \<^verbatim>\<open>decodeURIComponent\<close> stands before the
  \<^verbatim>\<open>try\<close>: its exception leaves the handler (\<open>Inl\<close>) and no response is written.
\<close>

definition messages_endpoint :: "env \<Rightarrow> state \<Rightarrow> string \<Rightarrow> string \<Rightarrow> jsnum \<Rightarrow> exn + outcome" where
  "messages_endpoint ev s sessionName param parsedLimit =
     (case decodeURIComponent ev param of
        None \<Rightarrow> Inl URIError
      | Some jid \<Rightarrow>
          (case jm_get (sockets s) sessionName of
             None \<Rightarrow> Inr \<lparr>response = \<lparr>status = 400, http_body = ErrorBody ''Session not connected''\<rparr>,
                          state_after = s, live_fetch = False\<rparr>
           | Some sk \<Rightarrow>
               if \<not> sock_user sk
               then Inr \<lparr>response = \<lparr>status = 400, http_body = ErrorBody ''Session not connected''\<rparr>,
                         state_after = s, live_fetch = False\<rparr>
               else (case load_and_format ev s sessionName jid (requested_limit parsedLimit) of
                       Inr r \<Rightarrow> Inr r
                     | Inl e \<Rightarrow>
                         Inr \<lparr>response =
                                \<lparr>status = 200,
                                 http_body = MessagesBody [] 0 0 jid (Some (exn_message e))
                                   (Some (''Error loading messages: '' @ exn_message e @
                                          ''. Messages are only available if the chat was recently opened on the linked device.''))\<rparr>,
                              state_after = s, live_fetch = False\<rparr>)))"


section \<open>Notions used in the statements\<close>

text \<open>The stored array of chat \<open>jid\<close> in session \<open>sessionName\<close>.\<close>

definition chat_ledger :: "state \<Rightarrow> string \<Rightarrow> string \<Rightarrow> wamsg list" where
  "chat_ledger s sessionName jid = ledger_of (get_or_empty (sessionMessages s) sessionName) jid"

text \<open>Every stored array of a message store, and of every session, has at most 100 entries.\<close>

definition store_cap :: "(string, wamsg list) jsmap \<Rightarrow> bool" where
  "store_cap store = list_all (\<lambda>kv. length (snd kv) \<le> 100) store"

definition within_cap :: "state \<Rightarrow> bool" where
  "within_cap s = list_all (\<lambda>kv. store_cap (snd kv)) (sessionMessages s)"

text \<open>A message that \<^verbatim>\<open>messages.upsert\<close> files under chat \<open>chatId\<close>.\<close>

definition addressed_to :: "string \<Rightarrow> wamsg \<Rightarrow> bool" where
  "addressed_to chatId m =
     (case msg_key m of None \<Rightarrow> False | Some k \<Rightarrow> key_remoteJid k = Some chatId)"


text \<open>\<^verbatim>\<open>need\<close> of \<^verbatim>\<open>getMessagesForChat\<close>: the larger of \<open>minCount\<close> and the chat's unread count.\<close>

definition need_of :: "state \<Rightarrow> string \<Rightarrow> string \<Rightarrow> int \<Rightarrow> int" where
  "need_of s sessionName jid minCount =
     max minCount (unread_of (case jm_get (sessionChats s) sessionName of
                                None \<Rightarrow> None
                              | Some chatMap \<Rightarrow> jm_get chatMap jid))"



text \<open>The formatted chats of the elements of a batch that the reconciler does not skip.\<close>

definition formatted_of :: "(string \<rightharpoonup> contact) \<Rightarrow> chat list \<Rightarrow> fchat list" where
  "formatted_of contacts chats =
     List.map_filter (\<lambda>c. case format_chat contacts c of Inr (Some f) \<Rightarrow> Some f | _ \<Rightarrow> None) chats"

text \<open>A map of merged chats whose keys are pairwise different and are the ids of their records.\<close>

definition keyed :: "(string, fchat) jsmap \<Rightarrow> bool" where
  "keyed m \<longleftrightarrow> distinct (map fst m) \<and> (\<forall>kv \<in> set m. f_id (snd kv) = fst kv)"

text \<open>The unread count recorded under a canonical id, 0 when there is no record.\<close>

definition unread_at :: "(string, fchat) jsmap \<Rightarrow> string \<Rightarrow> int" where
  "unread_at m k = (case jm_get m k of None \<Rightarrow> 0 | Some v \<Rightarrow> f_unreadCount v)"

text \<open>
  The ledger lookup of \<^verbatim>\<open>getMessagesForChat\<close> misses: the session has no message map,
  or the array stored under the requested id is absent or empty and the search through
  the stored ids ends without a decoding error, either at no id or at an id whose array
  is empty.
\<close>

definition ledger_miss :: "(string \<Rightarrow> string option) \<Rightarrow> state \<Rightarrow> string \<Rightarrow> string \<Rightarrow> bool" where
  "ledger_miss dec s sessionName jid =
     (case jm_get (sessionMessages s) sessionName of
        None \<Rightarrow> True
      | Some messageMap \<Rightarrow>
          ledger_of messageMap jid = [] \<and>
          (case find_stored dec jid (map fst messageMap) of
             Inl e \<Rightarrow> False
           | Inr None \<Rightarrow> True
           | Inr (Some storedJid) \<Rightarrow> ledger_of messageMap storedJid = []))"

text \<open>An embedded element that carries a message with a truthy \<^verbatim>\<open>key.id\<close>.\<close>

definition embedded_valid :: "embedded \<Rightarrow> bool" where
  "embedded_valid e = (case unwrap e of None \<Rightarrow> False | Some msg \<Rightarrow> truthy_str (key_id_of msg))"

text \<open>The messages embedded in a payload, as the fallback leaves them: timestamps normalised.\<close>

definition embedded_messages :: "embedded list \<Rightarrow> wamsg list" where
  "embedded_messages es = map normalize_ts (List.map_filter unwrap es)"

text \<open>Of the messages that share an id the first one, in the order of the list.\<close>

fun first_by_id :: "wamsg list \<Rightarrow> wamsg list" where
  "first_by_id [] = []"
| "first_by_id (m # ms) = m # first_by_id (filter (\<lambda>x. key_id_of x \<noteq> key_id_of m) ms)"

text \<open>The chat directory entry of chat \<open>jid\<close> in a session, if any.\<close>

definition chat_entry :: "state \<Rightarrow> string \<Rightarrow> string \<Rightarrow> chat option" where
  "chat_entry s sessionName jid =
     (case jm_get (sessionChats s) sessionName of None \<Rightarrow> None | Some chatMap \<Rightarrow> jm_get chatMap jid)"

section \<open>Concrete data for the examples\<close>

definition text_msg :: "string \<Rightarrow> string \<Rightarrow> bool \<Rightarrow> jsval \<Rightarrow> string \<Rightarrow> wamsg" where
  "text_msg jid i fromMe ts txt =
     \<lparr>msg_key = Some \<lparr>key_remoteJid = Some jid, key_id = Some i, key_fromMe = fromMe\<rparr>,
      messageTimestamp = ts, msg_timestamp = Undefined,
      msg_message = Some \<lparr>c_messageTimestamp = Undefined, conversation = Some txt,
                          extendedText = None, imageMessage = None, videoMessage = None,
                          audioMessage = False, documentMessage = None, stickerMessage = False\<rparr>\<rparr>"

text \<open>\<open>n\<close> messages of one chat with pairwise different ids, message \<open>i\<close> sent at second \<open>i + 1\<close>.\<close>

definition numbered_msgs :: "string \<Rightarrow> nat \<Rightarrow> wamsg list" where
  "numbered_msgs jid n =
     map (\<lambda>i. text_msg jid (replicate (Suc i) (CHR ''m'')) False (Number (Num (int i + 1))) ''hello'') [0..<n]"

definition empty_state :: state where
  "empty_state = \<lparr>sockets = [], qrCodes = [], sessionChats = [], sessionMessages = [],
                   timers = [], credsSaved = []\<rparr>"

definition plain_chat :: "string \<Rightarrow> chat" where
  "plain_chat i =
     \<lparr>chat_id = Some i, chat_jid = None, subject = None, chat_name = None, notify = None,
      pushName = None, unreadCount = None, chat_count = None, unread = None,
      conversationTimestamp = Undefined, pinned = False, chat_messages = None,
      raw_messages = None\<rparr>"

text \<open>
  A session \<^verbatim>\<open>main\<close> with a connected socket, a pending QR code, one chat and one stored
  message.
\<close>

definition busy_state :: state where
  "busy_state =
     \<lparr>sockets = [(''main'', \<lparr>sock_handle = 1, sock_user = True\<rparr>)],
      qrCodes = [(''main'', Some ''iVBORw0KGgo='')],
      sessionChats = [(''main'', [(''4915@s.whatsapp.net'', plain_chat ''4915@s.whatsapp.net'')])],
      sessionMessages = [(''main'', [(''4915@s.whatsapp.net'', numbered_msgs ''4915@s.whatsapp.net'' 1)])],
      timers = [], credsSaved = []\<rparr>"

text \<open>A state whose only content is the stored array \<open>ms\<close> of chat \<open>jid\<close> in session \<^verbatim>\<open>main\<close>.\<close>

definition ledger_state :: "string \<Rightarrow> wamsg list \<Rightarrow> state" where
  "ledger_state jid ms = empty_state\<lparr>sessionMessages := [(''main'', [(jid, ms)])]\<rparr>"

text \<open>A message sent at second 5 and a later arrival whose timestamp is the string \<^verbatim>\<open>abc\<close>.\<close>

definition at_five :: wamsg where
  "at_five = text_msg ''4915@s.whatsapp.net'' ''A1'' False (Number (Num 5)) ''first''"

definition at_abc :: wamsg where
  "at_abc = text_msg ''4915@s.whatsapp.net'' ''A2'' False (Str ''abc'') ''second''"

text \<open>Messages without a timestamp, with a digit string and with a number.\<close>

definition at_none :: wamsg where
  "at_none = text_msg ''4915@s.whatsapp.net'' ''A3'' False Undefined ''third''"

definition at_string :: wamsg where
  "at_string = text_msg ''4915@s.whatsapp.net'' ''A4'' False (Str ''1700000000'') ''fourth''"



definition at_new :: wamsg where
  "at_new = text_msg ''4915@s.whatsapp.net'' ''N'' False (Number (Num 2000)) ''new''"

text \<open>The two raw chats of the reconciler example: a phone id with 2 and an anonymous id with 3 unread messages.\<close>

definition phone_chat :: chat where
  "phone_chat = (plain_chat ''A@s.whatsapp.net'')\<lparr>unread := Some 2\<rparr>"

definition lid_chat :: chat where
  "lid_chat = (plain_chat ''B@lid'')\<lparr>unread := Some 3\<rparr>"

text \<open>
  A contact table that resolves \<^verbatim>\<open>B@lid\<close> to phone \<^verbatim>\<open>A\<close> with the name Alice, and a
  phone chat whose own name is the sentinel.
\<close>

definition alice_contacts :: "string \<rightharpoonup> contact" where
  "alice_contacts =
     [''B@lid'' \<mapsto> \<lparr>contact_name = Some ''Alice'', contact_notify = None,
                      contact_pushName = None, phoneNumber = Some ''A''\<rparr>]"

definition unknown_chat :: chat where
  "unknown_chat = (plain_chat ''A@s.whatsapp.net'')\<lparr>chat_name := Some ''Unknown''\<rparr>"

text \<open>A collation for the examples: every pair of names compares equal.\<close>

definition flat_compare :: "string \<Rightarrow> string \<Rightarrow> jsnum" where
  "flat_compare a b = Num 0"

text \<open>The formatted chats of \<open>unknown_chat\<close> and, under \<open>alice_contacts\<close>, of \<open>lid_chat\<close>.\<close>

definition unknown_record :: fchat where
  "unknown_record =
     \<lparr>f_id = ''A@s.whatsapp.net'', originalId = ''A@s.whatsapp.net'', f_name = ''Unknown'',
      f_type = Individual, f_unreadCount = 0, lastMessageTime = None, f_pinned = False,
      f_raw = unknown_chat\<rparr>"

definition alice_record :: fchat where
  "alice_record =
     \<lparr>f_id = ''A@s.whatsapp.net'', originalId = ''B@lid'', f_name = ''Alice'',
      f_type = Individual, f_unreadCount = 3, lastMessageTime = None, f_pinned = False,
      f_raw = lid_chat\<rparr>"

text \<open>
  A platform for the examples. Decoding maps \<^verbatim>\<open>%25zz\<close> to \<^verbatim>\<open>%zz\<close>, throws on
  \<^verbatim>\<open>%zz\<close> and leaves the other strings used here (which have no escapes) as they are.
  The clock stands at 2500 s, there is no secondary store, and the live fetch fails.
\<close>

definition demo_decode :: "string \<Rightarrow> string option" where
  "demo_decode t = (if t = ''%25zz'' then Some ''%zz'' else if t = ''%zz'' then None else Some t)"

definition demo_env :: env where
  "demo_env = \<lparr>decodeURIComponent = demo_decode, date_now = 2500000, storeMessages = None,
                loadMessages = (\<lambda>jid n. Inl (UpstreamError ''Timed Out''))\<rparr>"

text \<open>
  A connected session \<^verbatim>\<open>main\<close> with an empty ledger whose chat directory holds one chat
  with three embedded history messages.
\<close>

definition emb_one :: wamsg where
  "emb_one = text_msg ''4915@s.whatsapp.net'' ''E1'' False (Str ''1000'') ''one''"

definition emb_two :: wamsg where
  "emb_two = text_msg ''4915@s.whatsapp.net'' ''E2'' True (Number (Num 2000)) ''two''"

definition emb_three :: wamsg where
  "emb_three = text_msg ''4915@s.whatsapp.net'' ''E3'' False Undefined ''three''"

definition payload_chat :: chat where
  "payload_chat = (plain_chat ''4915@s.whatsapp.net'')
     \<lparr>chat_messages := Some [Wrapped emb_one, Wrapped emb_two, Wrapped emb_three]\<rparr>"

definition payload_state :: state where
  "payload_state =
     empty_state\<lparr>sockets := [(''main'', \<lparr>sock_handle = 1, sock_user = True\<rparr>)],
                 sessionChats := [(''main'', [(''4915@s.whatsapp.net'', payload_chat)])],
                 sessionMessages := [(''main'', [])]\<rparr>"

text \<open>
  The same session with a chat that embeds three elements of which the first and the
  last carry the same message id, and with a chat of three embedded messages next to a
  ledger in which some other chat is stored under an id that cannot be URL-decoded.
\<close>

definition emb_two_again :: wamsg where
  "emb_two_again = text_msg ''4915@s.whatsapp.net'' ''E2'' True (Number (Num 2000)) ''two, once more''"

definition repeated_chat :: chat where
  "repeated_chat = (plain_chat ''4915@s.whatsapp.net'')
     \<lparr>chat_messages := Some [Wrapped emb_two, Wrapped emb_three, Wrapped emb_two_again]\<rparr>"

definition repeated_state :: state where
  "repeated_state =
     empty_state\<lparr>sockets := [(''main'', \<lparr>sock_handle = 1, sock_user = True\<rparr>)],
                 sessionChats := [(''main'', [(''4915@s.whatsapp.net'', repeated_chat)])],
                 sessionMessages := [(''main'', [])]\<rparr>"

definition blocked_state :: state where
  "blocked_state =
     empty_state\<lparr>sockets := [(''main'', \<lparr>sock_handle = 1, sock_user = True\<rparr>)],
                 sessionChats := [(''main'', [(''4915@s.whatsapp.net'', payload_chat)])],
                 sessionMessages := [(''main'', [(''%zz'', [at_five])])]\<rparr>"

text \<open>
  The same session with a chat whose embedded elements are the three message objects
  themselves, each with its content payload, instead of wrappers.
\<close>

definition direct_chat :: chat where
  "direct_chat = (plain_chat ''4915@s.whatsapp.net'')
     \<lparr>chat_messages := Some [Direct emb_one, Direct emb_two, Direct emb_three]\<rparr>"

definition direct_state :: state where
  "direct_state =
     empty_state\<lparr>sockets := [(''main'', \<lparr>sock_handle = 1, sock_user = True\<rparr>)],
                 sessionChats := [(''main'', [(''4915@s.whatsapp.net'', direct_chat)])],
                 sessionMessages := [(''main'', [])]\<rparr>"

text \<open>
  A connected session with an empty ledger, and a chat that embeds 101 messages with
  pairwise different ids, as a \<^verbatim>\<open>chats.update\<close> event delivers it.
\<close>

definition connected_state :: state where
  "connected_state =
     empty_state\<lparr>sockets := [(''main'', \<lparr>sock_handle = 1, sock_user = True\<rparr>)],
                 sessionMessages := [(''main'', [])]\<rparr>"

definition big_chat :: chat where
  "big_chat = (plain_chat ''4915@s.whatsapp.net'')
     \<lparr>chat_messages := Some (map Wrapped (numbered_msgs ''4915@s.whatsapp.net'' 101))\<rparr>"

definition big_state :: state where
  "big_state = connected_state\<lparr>sessionChats := [(''main'', [(''4915@s.whatsapp.net'', big_chat)])]\<rparr>"

text \<open>The state \<open>big_state\<close> with all 101 messages in the stored array of the chat.\<close>

definition overfull_state :: state where
  "overfull_state =
     big_state\<lparr>sessionMessages :=
                  [(''main'', [(''4915@s.whatsapp.net'', numbered_msgs ''4915@s.whatsapp.net'' 101)])]\<rparr>"

text \<open>
  A connected session whose ledger holds a received message of second 1000 and the
  user's own reply of second 2000.
\<close>

definition received_msg :: wamsg where
  "received_msg = text_msg ''4915@s.whatsapp.net'' ''R1'' False (Number (Num 1000)) ''question''"

definition reply_msg :: wamsg where
  "reply_msg = text_msg ''4915@s.whatsapp.net'' ''R2'' True (Number (Num 2000)) ''answer''"

definition reply_state :: state where
  "reply_state =
     empty_state\<lparr>sockets := [(''main'', \<lparr>sock_handle = 1, sock_user = True\<rparr>)],
                 sessionMessages := [(''main'', [(''4915@s.whatsapp.net'', [received_msg, reply_msg])])]\<rparr>"

section \<open>Insertion-ordered maps and the append step: basic facts\<close>

lemma jm_get_set_same: "jm_get (jm_set m k v) k = Some v"
  by (induction m) (auto simp: jm_get_def)

lemma jm_get_set_other: "k' \<noteq> k \<Longrightarrow> jm_get (jm_set m k v) k' = jm_get m k'"
  by (induction m) (auto simp: jm_get_def)

lemma jm_set_set: "jm_set (jm_set m k v) k w = jm_set m k w"
  by (induction m) auto

lemma jm_set_idem: "jm_get m k = Some v \<Longrightarrow> jm_set m k v = m"
  by (induction m) (auto simp: jm_get_def split: if_splits)

lemma set_jm_set: "set (jm_set m k v) \<subseteq> insert (k, v) (set m)"
  by (induction m) (auto split: if_splits)

lemma jm_get_delete_same: "jm_get (jm_delete m k) k = None"
  by (induction m) (auto simp: jm_get_def jm_delete_def)

lemma jm_get_delete_other: "k' \<noteq> k \<Longrightarrow> jm_get (jm_delete m k) k' = jm_get m k'"
  by (induction m) (auto simp: jm_get_def jm_delete_def)

lemma exists_id_iff: "exists_id ms i \<longleftrightarrow> i \<in> key_id_of ` set ms"
  by (auto simp: exists_id_def list_ex_iff)

lemma ledger_append_exists: "exists_id (ledger_append cm m) (key_id_of m)"
proof (cases "exists_id cm (key_id_of m)")
  case True
  then show ?thesis by (simp add: ledger_append_def)
next
  case False
  show ?thesis
  proof (cases "length (cm @ [m]) > 100")
    case True
    then obtain c cs where cm: "cm = c # cs" by (cases cm) auto
    with False True show ?thesis
      by (simp add: ledger_append_def exists_id_iff Let_def)
  next
    case F2: False
    with False show ?thesis
      by (simp add: ledger_append_def exists_id_iff Let_def)
  qed
qed

lemma ledger_append_noop: "exists_id cm (key_id_of m) \<Longrightarrow> ledger_append cm m = cm"
  by (simp add: ledger_append_def)

lemma ledger_append_length: "length cm \<le> 100 \<Longrightarrow> length (ledger_append cm m) \<le> 100"
  by (auto simp: ledger_append_def Let_def)

lemma ledger_append_new:
  assumes "\<not> exists_id cm (key_id_of m)" and "length cm \<le> 100"
  shows "ledger_append cm m = drop (length (cm @ [m]) - 100) (cm @ [m])"
proof (cases "length cm = 100")
  case True
  then obtain c cs where "cm = c # cs" by (cases cm) auto
  with True assms show ?thesis by (simp add: ledger_append_def Let_def)
next
  case False
  with assms show ?thesis by (simp add: ledger_append_def Let_def)
qed

lemma foldl_ledger_append:
  "distinct (map key_id_of (cm @ ms)) \<Longrightarrow> length cm \<le> 100 \<Longrightarrow>
   foldl ledger_append cm ms = drop (length (cm @ ms) - 100) (cm @ ms)"
proof (induction ms arbitrary: cm)
  case Nil
  then show ?case by simp
next
  case (Cons m ms)
  have ne: "\<not> exists_id cm (key_id_of m)"
    using Cons.prems(1) by (auto simp: exists_id_iff)
  let ?cm' = "ledger_append cm m"
  have eq: "?cm' = drop (length (cm @ [m]) - 100) (cm @ [m])"
    using ne Cons.prems(2) by (rule ledger_append_new)
  have eq': "?cm' @ ms = drop (length (cm @ [m]) - 100) (cm @ m # ms)"
    unfolding eq using Cons.prems(2) by simp
  have len: "length ?cm' \<le> 100" using Cons.prems(2) by (rule ledger_append_length)
  have "distinct (map key_id_of ((cm @ [m]) @ ms))" using Cons.prems(1) by simp
  then have d: "distinct (map key_id_of (?cm' @ ms))"
    unfolding eq
    by (metis append_take_drop_id distinct_append map_append append.assoc) 
  have "foldl ledger_append cm (m # ms) = foldl ledger_append ?cm' ms" by simp
  also have "\<dots> = drop (length (?cm' @ ms) - 100) (?cm' @ ms)"
    using d len by (rule Cons.IH)
  also have "\<dots> = drop (length (cm @ m # ms) - 100) (cm @ m # ms)"
  proof (cases "length cm = 100")
    case True
    then show ?thesis unfolding eq' by simp
  next
    case False
    with Cons.prems(2) have "length cm < 100" by simp
    then show ?thesis unfolding eq' by simp
  qed
  finally show ?case .
qed


lemma get_or_empty_set_same: "get_or_empty (jm_set m k v) k = v"
  by (simp add: get_or_empty_def jm_get_set_same)

lemma ledger_of_set_same: "ledger_of (jm_set st k v) k = v"
  by (simp add: ledger_of_def jm_get_set_same)

lemma jm_get_in_set: "jm_get m k = Some v \<Longrightarrow> (k, v) \<in> set m"
  by (simp add: jm_get_def map_of_SomeD)

lemma jm_has_set: "jm_has (jm_set m k v) k"
  by (simp add: jm_has_def jm_get_set_same[unfolded jm_get_def])

lemma upsert_one_ledger:
  assumes "addressed_to chatId m" and "chatId \<noteq> []"
  shows "chat_ledger (upsert_one name s m) name chatId = ledger_append (chat_ledger s name chatId) m"
  using assms
  by (auto simp: upsert_one_def chat_ledger_def addressed_to_def Let_def
        get_or_empty_set_same ledger_of_set_same split: option.splits)

lemma messages_upsert_ledger:
  assumes "\<forall>m \<in> set ms. addressed_to chatId m" and "chatId \<noteq> []"
  shows "chat_ledger (messages_upsert name ms s) name chatId = foldl ledger_append (chat_ledger s name chatId) ms"
  using assms(1)
proof (induction ms arbitrary: s)
  case Nil
  then show ?case by (simp add: messages_upsert_def)
next
  case (Cons m ms)
  have "chat_ledger (messages_upsert name (m # ms) s) name chatId
        = chat_ledger (messages_upsert name ms (upsert_one name s m)) name chatId"
    by (simp add: messages_upsert_def)
  also have "\<dots> = foldl ledger_append (chat_ledger (upsert_one name s m) name chatId) ms"
    using Cons by simp
  also have "\<dots> = foldl ledger_append (chat_ledger s name chatId) (m # ms)"
    using Cons.prems assms(2) by (simp add: upsert_one_ledger)
  finally show ?case .
qed

lemma upsert_one_twice:
  assumes "msg_key m = Some k" "msg_key m' = Some k'"
    and "key_remoteJid k' = key_remoteJid k" "key_id k' = key_id k"
  shows "upsert_one name (upsert_one name s m) m' = upsert_one name s m"
proof (cases "key_remoteJid k")
  case None
  with assms show ?thesis by (simp add: upsert_one_def)
next
  case (Some chatId)
  show ?thesis
  proof (cases "chatId = []")
    case True
    with Some assms show ?thesis by (simp add: upsert_one_def)
  next
    case False
    have ids: "key_id_of m' = key_id_of m" using assms by (simp add: key_id_of_def)
    have noop: "ledger_append (ledger_append cm m) m' = ledger_append cm m" for cm
      using ledger_append_exists[of cm m] ids by (simp add: ledger_append_noop)
    show ?thesis
      using assms Some False
      by (simp add: upsert_one_def Let_def get_or_empty_set_same ledger_of_set_same
          jm_set_set noop jm_has_set)
  qed
qed


lemma store_cap_iff: "store_cap st \<longleftrightarrow> (\<forall>kv \<in> set st. length (snd kv) \<le> 100)"
  by (simp add: store_cap_def list_all_iff)

lemma within_cap_iff: "within_cap s \<longleftrightarrow> (\<forall>kv \<in> set (sessionMessages s). store_cap (snd kv))"
  by (simp add: within_cap_def list_all_iff)

lemma store_cap_ledger_of: "store_cap st \<Longrightarrow> length (ledger_of st jid) \<le> 100"
  by (fastforce simp: store_cap_iff ledger_of_def dest: jm_get_in_set split: option.splits)

lemma store_cap_set: "store_cap st \<Longrightarrow> length v \<le> 100 \<Longrightarrow> store_cap (jm_set st k v)"
  using set_jm_set[of st k v] by (auto simp: store_cap_iff)

lemma within_cap_get: "within_cap s \<Longrightarrow> store_cap (get_or_empty (sessionMessages s) name)"
  by (fastforce simp: within_cap_iff get_or_empty_def store_cap_def dest: jm_get_in_set split: option.splits)

lemma within_cap_set:
  "within_cap s \<Longrightarrow> store_cap st \<Longrightarrow> sessionMessages s' = jm_set (sessionMessages s) name st
   \<Longrightarrow> within_cap s'"
  using set_jm_set[of "sessionMessages s" name st] by (auto simp: within_cap_iff)

lemma upsert_one_cap: "within_cap s \<Longrightarrow> within_cap (upsert_one name s m)"
proof -
  assume w: "within_cap s"
  have *: "store_cap (jm_set (get_or_empty (sessionMessages s) name) c
              (ledger_append (ledger_of (get_or_empty (sessionMessages s) name) c) m))" for c
    by (intro store_cap_set within_cap_get w ledger_append_length store_cap_ledger_of)
  show ?thesis
    using w
    by (auto simp: upsert_one_def Let_def split: option.splits
        intro!: within_cap_set[OF w *])
qed

lemma messages_upsert_cap: "within_cap s \<Longrightarrow> within_cap (messages_upsert name ms s)"
  unfolding messages_upsert_def
  by (induction ms arbitrary: s) (simp_all add: upsert_one_cap)

lemma history_message_one_cap: "store_cap st \<Longrightarrow> store_cap (history_message_one st m)"
  by (auto simp: history_message_one_def Let_def split: option.splits
      intro!: store_cap_set ledger_append_length store_cap_ledger_of)

lemma foldl_history_message_cap: "store_cap st \<Longrightarrow> store_cap (foldl history_message_one st ms)"
  by (induction ms arbitrary: st) (simp_all add: history_message_one_cap)

lemma history_embedded_one_cap:
  "store_cap st \<Longrightarrow> store_cap (snd (history_embedded_one cid st e))"
  by (auto simp: history_embedded_one_def Let_def split: option.splits
      intro!: store_cap_set ledger_append_length store_cap_ledger_of)

lemma history_embedded_cap:
  "store_cap st \<Longrightarrow> store_cap (snd (history_embedded cid st es))"
proof (induction es arbitrary: st)
  case Nil
  then show ?case by simp
next
  case (Cons e es)
  from Cons.prems have "store_cap (snd (history_embedded_one cid st e))"
    by (rule history_embedded_one_cap)
  then have "store_cap (snd (history_embedded cid (snd (history_embedded_one cid st e)) es))"
    by (rule Cons.IH)
  then show ?case by (simp add: split_beta Let_def)
qed

lemma history_chat_one_cap: "store_cap (snd acc) \<Longrightarrow> store_cap (snd (history_chat_one acc c))"
  using history_embedded_cap[of "snd acc"]
  by (auto simp: history_chat_one_def Let_def split_beta split: option.splits)

lemma foldl_history_chat_cap:
  "store_cap (snd acc) \<Longrightarrow> store_cap (snd (foldl history_chat_one acc cs))"
  by (induction cs arbitrary: acc) (simp_all add: history_chat_one_cap)

lemma messaging_history_set_cap:
  assumes "within_cap s"
  shows "within_cap (messaging_history_set name h s)"
proof -
  let ?st = "get_or_empty (sessionMessages s) name"
  let ?cm = "get_or_empty (sessionChats s) name"
  let ?p = "(case h_chats h of None \<Rightarrow> (?cm, ?st) | Some cs \<Rightarrow> foldl history_chat_one (?cm, ?st) cs)"
  let ?st'' = "(case h_messages h of None \<Rightarrow> snd ?p | Some ms \<Rightarrow> foldl history_message_one (snd ?p) ms)"
  have c0: "store_cap ?st" using assms by (rule within_cap_get)
  have c1: "store_cap (snd ?p)"
    using c0 foldl_history_chat_cap[of "(?cm, ?st)"] by (simp split: option.splits)
  have c2: "store_cap ?st''"
    using c1 by (simp add: foldl_history_message_cap split: option.splits)
  have "sessionMessages (messaging_history_set name h s) = jm_set (sessionMessages s) name ?st''"
    by (simp add: messaging_history_set_def Let_def split_beta)
  with assms c2 show ?thesis by (rule within_cap_set)
qed

lemma ledger_of_nonempty: "ledger_of st k \<noteq> [] \<Longrightarrow> jm_get st k = Some (ledger_of st k)"
  by (auto simp: ledger_of_def split: option.splits)

lemma exists_id_nonempty: "exists_id ms i \<Longrightarrow> ms \<noteq> []"
  by (auto simp: exists_id_def)

lemma jm_set_ledger_noop: "exists_id (ledger_of st k) i \<Longrightarrow> jm_set st k (ledger_of st k) = st"
  by (intro jm_set_idem ledger_of_nonempty exists_id_nonempty)

lemma history_message_one_twice:
  assumes "msg_key m = Some k" "msg_key m' = Some k'"
    and "key_remoteJid k' = key_remoteJid k" "key_id k' = key_id k"
  shows "history_message_one (history_message_one st m) m' = history_message_one st m"
proof -
  have ids: "key_id_of m' = key_id_of m" using assms by (simp add: key_id_of_def)
  have noop: "ledger_append (ledger_append cm m) m' = ledger_append cm m" for cm
    using ledger_append_exists[of cm m] ids by (simp add: ledger_append_noop)
  show ?thesis
    using assms
    by (simp add: history_message_one_def Let_def ledger_of_set_same jm_set_set noop)
qed

lemma history_embedded_one_dup:
  assumes "unwrap e = Some msg" "msg_key msg = Some k"
    and "jid = (if truthy_str (key_remoteJid k) then the (key_remoteJid k) else cid)"
    and "exists_id (ledger_of st jid) (key_id k)"
  shows "history_embedded_one cid st e = (e, st)"
  using assms jm_set_ledger_noop[OF assms(4)]
  by (simp add: history_embedded_one_def Let_def)

lemma ledger_append_distinct:
  "distinct (map key_id_of cm) \<Longrightarrow> distinct (map key_id_of (ledger_append cm m))"
proof -
  assume d: "distinct (map key_id_of cm)"
  show ?thesis
  proof (cases "exists_id cm (key_id_of m)")
    case True
    with d show ?thesis by (simp add: ledger_append_def)
  next
    case False
    with d have "distinct (map key_id_of (cm @ [m]))" by (auto simp: exists_id_iff)
    then have "distinct (map key_id_of (tl (cm @ [m])))"
      unfolding map_tl by (rule distinct_tl)
    with \<open>distinct (map key_id_of (cm @ [m]))\<close> False show ?thesis
      by (simp add: ledger_append_def Let_def del: map_append)
  qed
qed

lemma distinct_count_one:
  "distinct (map f xs) \<Longrightarrow> y \<in> f ` set xs \<Longrightarrow> length (filter (\<lambda>x. f x = y) xs) = 1"
proof (induction xs)
  case Nil
  then show ?case by simp
next
  case (Cons a xs)
  show ?case
  proof (cases "f a = y")
    case True
    with Cons.prems(1) have "\<forall>x \<in> set xs. f x \<noteq> y" by (auto simp: image_iff)
    then have "filter (\<lambda>x. f x = y) xs = []" by (simp add: filter_empty_conv)
    with True show ?thesis by simp
  next
    case False
    with Cons.prems have "y \<in> f ` set xs" "distinct (map f xs)" by auto
    with Cons.IH False show ?thesis by simp
  qed
qed

section \<open>Sorting and reading: basic facts\<close>

lemma mset_js_insert: "mset (js_insert cmp x ys) = add_mset x (mset ys)"
  by (induction ys) auto

lemma mset_js_sort: "mset (js_sort cmp xs) = mset xs"
  unfolding js_sort_def by (induction xs) (auto simp: mset_js_insert)

lemma set_js_sort: "set (js_sort cmp xs) = set xs"
  using mset_js_sort[of cmp xs] by (metis set_mset_mset)

lemma length_js_sort: "length (js_sort cmp xs) = length xs"
  using mset_js_sort[of cmp xs] by (metis size_mset)










lemma getMessagesForChat_shape:
  assumes "getMessagesForChat dec s name jid n = Inr (res, s')"
  shows "(res = [] \<and> s' = s) \<or>
         (\<exists>k. chat_ledger s name k \<noteq> [] \<and>
              res = drop (nat (max 0 (int (length (chat_ledger s name k)) - need_of s name jid n)))
                      (js_sort cmp_ts (chat_ledger s name k)) \<and>
              s' = s\<lparr>sessionMessages := jm_set (sessionMessages s) name
                     (jm_set (get_or_empty (sessionMessages s) name) k
                        (js_sort cmp_ts (chat_ledger s name k)))\<rparr>)"
proof (cases "jm_get (sessionMessages s) name")
  case None
  with assms show ?thesis by (simp add: getMessagesForChat_def)
next
  case (Some mm)
  then have g: "get_or_empty (sessionMessages s) name = mm" by (simp add: get_or_empty_def)
  let ?sel = "(if ledger_of mm jid \<noteq> [] then Inr (Some jid) else find_stored dec jid (map fst mm))"
  show ?thesis
  proof (cases ?sel)
    case (Inl e)
    with assms Some show ?thesis by (simp add: getMessagesForChat_def)
  next
    case (Inr ko)
    show ?thesis
    proof (cases ko)
      case None
      with assms Some Inr show ?thesis by (simp add: getMessagesForChat_def)
    next
      case (Some k)
      show ?thesis
      proof (cases "ledger_of mm k = []")
        case True
        with assms \<open>jm_get (sessionMessages s) name = Some mm\<close> Inr Some show ?thesis
          by (simp add: getMessagesForChat_def)
      next
        case False
        with assms \<open>jm_get (sessionMessages s) name = Some mm\<close> Inr Some
        have "res = drop (nat (max 0 (int (length (ledger_of mm k)) - need_of s name jid n)))
                      (js_sort cmp_ts (ledger_of mm k)) \<and>
              s' = s\<lparr>sessionMessages := jm_set (sessionMessages s) name
                     (jm_set mm k (js_sort cmp_ts (ledger_of mm k)))\<rparr>"
          by (simp add: getMessagesForChat_def Let_def need_of_def)
        with False show ?thesis unfolding chat_ledger_def g by blast
      qed
    qed
  qed
qed

section \<open>The merge loop: basic facts\<close>

lemma map_fst_jm_set:
  "map fst (jm_set m k v) = (if k \<in> fst ` set m then map fst m else map fst m @ [k])"
  by (induction m) (force simp: image_iff)+

lemma distinct_jm_set: "distinct (map fst m) \<Longrightarrow> distinct (map fst (jm_set m k v))"
  by (simp add: map_fst_jm_set)

lemma set_jm_set_values:
  "(k', v') \<in> set (jm_set m k v) \<Longrightarrow> (k' = k \<and> v' = v) \<or> (k', v') \<in> set m"
  using set_jm_set[of m k v] by auto

lemma f_id_merge_into: "f_id (merge_into e f) = f_id e"
  by (simp add: merge_into_def Let_def split: option.splits)

lemma keyed_merge_chat: "keyed m \<Longrightarrow> keyed (merge_chat m f)"
proof -
  assume k: "keyed m"
  show ?thesis
  proof (cases "jm_get m (f_id f)")
    case None
    then show ?thesis
      using k by (auto simp: keyed_def merge_chat_def distinct_jm_set dest!: set_jm_set_values)
  next
    case (Some e)
    then have "(f_id f, e) \<in> set m" by (rule jm_get_in_set)
    with k have "f_id e = f_id f" by (auto simp: keyed_def)
    then show ?thesis
      using k Some
      by (auto simp: keyed_def merge_chat_def distinct_jm_set f_id_merge_into dest!: set_jm_set_values)
  qed
qed

lemma keyed_foldl: "keyed m \<Longrightarrow> keyed (foldl merge_chat m fs)"
  by (induction fs arbitrary: m) (simp_all add: keyed_merge_chat)

lemma unread_merge_into: "f_unreadCount (merge_into e f) = f_unreadCount e + f_unreadCount f"
  by (simp add: merge_into_def Let_def split: option.splits)

lemma unread_at_merge_chat:
  "unread_at (merge_chat m f) k = unread_at m k + (if f_id f = k then f_unreadCount f else 0)"
  by (cases "jm_get m (f_id f)")
    (auto simp: unread_at_def merge_chat_def jm_get_set_same jm_get_set_other unread_merge_into)

lemma unread_at_foldl:
  "unread_at (foldl merge_chat m fs) k
     = unread_at m k + sum_list (map f_unreadCount (filter (\<lambda>f. f_id f = k) fs))"
  by (induction fs arbitrary: m) (simp_all add: unread_at_merge_chat)

lemma keys_merge_chat: "fst ` set (merge_chat m f) = insert (f_id f) (fst ` set m)"
proof -
  have "set (map fst (merge_chat m f)) = insert (f_id f) (set (map fst m))"
    by (cases "jm_get m (f_id f)") (auto simp: merge_chat_def map_fst_jm_set)
  then show ?thesis by simp
qed

lemma keys_foldl: "fst ` set (foldl merge_chat m fs) = fst ` set m \<union> f_id ` set fs"
  by (induction fs arbitrary: m) (auto simp: keys_merge_chat)

lemma formatted_of_Cons:
  "formatted_of contacts (c # cs) =
     (case format_chat contacts c of Inr (Some f) \<Rightarrow> f # formatted_of contacts cs
      | _ \<Rightarrow> formatted_of contacts cs)"
  by (simp add: formatted_of_def List.map_filter_simps split: sum.splits option.splits)

lemma merge_loop_foldl:
  "merge_loop contacts m cs = Inr m' \<Longrightarrow> m' = foldl merge_chat m (formatted_of contacts cs)"
proof (induction cs arbitrary: m)
  case Nil
  then show ?case by (simp add: formatted_of_def List.map_filter_simps)
next
  case (Cons c cs)
  then show ?case
    by (cases "format_chat contacts c") (auto simp: formatted_of_Cons split: option.splits)
qed

lemma keyed_lookup: "keyed m \<Longrightarrow> r \<in> snd ` set m \<Longrightarrow> jm_get m (f_id r) = Some r"
  by (auto simp: keyed_def jm_get_def)

lemma keyed_ids: "keyed m \<Longrightarrow> map f_id (map snd m) = map fst m"
  by (auto simp: keyed_def)

section \<open>The retrieval chain: basic facts\<close>

lemma ledger_miss_read:
  assumes "ledger_miss dec s name jid"
  shows "getMessagesForChat dec s name jid n = Inr ([], s)"
proof (cases "jm_get (sessionMessages s) name")
  case None
  then show ?thesis by (simp add: getMessagesForChat_def)
next
  case (Some mm)
  with assms show ?thesis
    by (auto simp: ledger_miss_def getMessagesForChat_def split: sum.splits option.splits)
qed

lemma read_empty_miss:
  assumes "getMessagesForChat dec s name jid n = Inr ([], s')" and "1 \<le> n"
  shows "ledger_miss dec s name jid"
proof (cases "jm_get (sessionMessages s) name")
  case None
  then show ?thesis by (simp add: ledger_miss_def)
next
  case (Some mm)
  have drop_ne: "drop (nat (max 0 (int (length xs) - max n u))) (js_sort cmp_ts xs) \<noteq> []"
    if "xs \<noteq> []" for xs :: "wamsg list" and u :: int
  proof -
    have "0 < length xs" using that by simp
    with assms(2) have "nat (max 0 (int (length xs) - max n u)) < length xs" by linarith
    then show ?thesis by (simp add: length_js_sort)
  qed
  show ?thesis
  proof (cases "ledger_of mm jid = []")
    case True
    with assms(1) Some show ?thesis
      using drop_ne
      by (auto simp: ledger_miss_def getMessagesForChat_def Let_def
          split: sum.splits option.splits if_splits)
  next
    case False
    with assms(1) Some show ?thesis
      using drop_ne[OF False] by (simp add: getMessagesForChat_def Let_def)
  qed
qed

lemma key_id_of_normalize [simp]: "key_id_of (normalize_ts m) = key_id_of m"
  by (cases "messageTimestamp m") (auto simp: normalize_ts_def key_id_of_def)

lemma msg_key_normalize [simp]: "msg_key (normalize_ts m) = msg_key m"
  by (cases "messageTimestamp m") (auto simp: normalize_ts_def)

lemma raw_extract_valid:
  assumes "list_all embedded_valid es"
  shows "snd (raw_extract es) = embedded_messages es"
  using assms
proof (induction es)
  case Nil
  then show ?case by (simp add: raw_extract_def embedded_messages_def List.map_filter_simps)
next
  case (Cons e es)
  then obtain msg where u: "unwrap e = Some msg" and t: "truthy_str (key_id_of msg)"
    by (auto simp: embedded_valid_def split: option.splits)
  have "snd (raw_extract_one e) = Some (normalize_ts msg)"
    using u t by (simp add: raw_extract_one_def)
  then show ?case
    using Cons u by (simp add: raw_extract_def embedded_messages_def List.map_filter_simps)
qed

lemma embedded_messages_length:
  "list_all embedded_valid es \<Longrightarrow> length (embedded_messages es) = length es"
  by (induction es)
    (auto simp: embedded_messages_def List.map_filter_simps embedded_valid_def split: option.splits)

lemma embedded_messages_truthy:
  "list_all embedded_valid es \<Longrightarrow> \<forall>m \<in> set (embedded_messages es). truthy_str (key_id_of m)"
  by (induction es)
    (auto simp: embedded_messages_def List.map_filter_simps embedded_valid_def split: option.splits)

lemma store_back_distinct:
  "distinct (map key_id_of (st @ ms)) \<Longrightarrow> store_back st ms = st @ ms"
proof (induction ms arbitrary: st)
  case Nil
  then show ?case by (simp add: store_back_def)
next
  case (Cons m ms)
  have n: "\<not> exists_id st (key_id_of m)" using Cons.prems by (auto simp: exists_id_iff)
  have "distinct (map key_id_of ((st @ [m]) @ ms))" using Cons.prems by simp
  then have "store_back (st @ [m]) ms = (st @ [m]) @ ms" by (rule Cons.IH)
  with n show ?case by (simp add: store_back_def store_back_one_def)
qed

lemma store_back_first:
  "store_back st ms = st @ first_by_id (filter (\<lambda>x. key_id_of x \<notin> key_id_of ` set st) ms)"
proof (induction ms arbitrary: st)
  case Nil
  then show ?case by (simp add: store_back_def)
next
  case (Cons m ms)
  show ?case
  proof (cases "exists_id st (key_id_of m)")
    case True
    then have "store_back st (m # ms) = store_back st ms"
      by (simp add: store_back_def store_back_one_def)
    with True Cons.IH[of st] show ?thesis by (simp add: exists_id_iff)
  next
    case False
    then have "store_back st (m # ms) = store_back (st @ [m]) ms"
      by (simp add: store_back_def store_back_one_def)
    moreover have "filter (\<lambda>x. key_id_of x \<notin> key_id_of ` set (st @ [m])) ms
                     = filter (\<lambda>x. key_id_of x \<noteq> key_id_of m)
                         (filter (\<lambda>x. key_id_of x \<notin> key_id_of ` set st) ms)"
      by (auto intro: filter_cong)
    ultimately show ?thesis
      using False Cons.IH[of "st @ [m]"] by (simp add: exists_id_iff)
  qed
qed

lemma store_back_empty: "store_back [] ms = first_by_id ms"
  using store_back_first[of "[]" ms] by simp

lemma first_by_id_distinct: "distinct (map key_id_of ms) \<Longrightarrow> first_by_id ms = ms"
proof (induction ms)
  case Nil
  then show ?case by simp
next
  case (Cons m ms)
  then have "filter (\<lambda>x. key_id_of x \<noteq> key_id_of m) ms = ms"
    by (force simp: filter_id_conv image_iff)
  with Cons show ?case by simp
qed

lemma finalize_valid:
  assumes "\<forall>m \<in> set ms. truthy_str (key_id_of m)"
  shows "finalize now jid lim ms =
           rev (take (nat (min 20 (max 5 (min lim (int (length ms))))))
                  (js_sort cmp_fmsg (map (format_message now jid) ms)))"
proof -
  have ident: "m_id (format_message now jid m) = key_id_of m" for m
    by (simp add: format_message_def Let_def split_beta)
  have keep: "filter (\<lambda>m. truthy_str (m_id m)) (map (format_message now jid) ms)
                = map (format_message now jid) ms"
    using assms by (auto simp: filter_id_conv ident)
  show ?thesis unfolding finalize_def Let_def keep by simp
qed

lemma finalize_small:
  assumes "\<forall>m \<in> set ms. truthy_str (key_id_of m)" and "length ms \<le> 5"
  shows "mset (map m_raw (finalize now jid lim ms)) = mset ms"
    and "length (finalize now jid lim ms) = length ms"
    and "map m_id (finalize now jid lim ms) = map key_id_of (map m_raw (finalize now jid lim ms))"
proof -
  let ?f = "map (format_message now jid) ms"
  have raw: "m_raw (format_message now jid m) = m" for m
    by (simp add: format_message_def Let_def split_beta)
  have ident: "m_id (format_message now jid m) = key_id_of m" for m
    by (simp add: format_message_def Let_def split_beta)
  have keep: "filter (\<lambda>m. truthy_str (m_id m)) ?f = ?f"
    using assms(1) by (auto simp: filter_id_conv ident)
  let ?s = "js_sort cmp_fmsg ?f"
  have len: "length ?s = length ms" by (simp add: length_js_sort)
  have "nat (min 20 (max 5 (min lim (int (length ?f))))) \<ge> 5" by simp
  then have tk: "take (nat (min 20 (max 5 (min lim (int (length ?f)))))) ?s = ?s"
    using len assms(2) by simp
  have fin: "finalize now jid lim ms = rev ?s"
    unfolding finalize_def Let_def keep tk ..
  have "mset (map m_raw (rev ?s)) = image_mset m_raw (mset ?s)" by simp
  also have "\<dots> = image_mset m_raw (mset ?f)" by (simp add: mset_js_sort)
  also have "\<dots> = mset ms" by (simp add: raw comp_def multiset.map_comp)
  finally show "mset (map m_raw (finalize now jid lim ms)) = mset ms" unfolding fin .
  show "length (finalize now jid lim ms) = length ms" unfolding fin using len by simp
  have "\<forall>x \<in> set ?s. m_id x = key_id_of (m_raw x)"
    by (auto simp: set_js_sort raw ident)
  then show "map m_id (finalize now jid lim ms) = map key_id_of (map m_raw (finalize now jid lim ms))"
    unfolding fin by simp
qed


lemma ledger_miss_empty: "ledger_miss dec s name jid \<Longrightarrow> chat_ledger s name jid = []"
  by (cases "jm_get (sessionMessages s) name")
    (auto simp: ledger_miss_def chat_ledger_def get_or_empty_def ledger_of_def jm_get_def)

lemma raw_fallback_valid:
  assumes "chat_entry s name jid = Some c" "embedded_of c = es" "es \<noteq> []"
    and "list_all embedded_valid es" and "chat_ledger s name jid = []"
  shows "fst (raw_fallback s name jid) = embedded_messages es"
    and "chat_ledger (snd (raw_fallback s name jid)) name jid = first_by_id (embedded_messages es)"
proof -
  obtain chatMap where cm: "jm_get (sessionChats s) name = Some chatMap" "jm_get chatMap jid = Some c"
    using assms(1) by (auto simp: chat_entry_def split: option.splits)
  have ex: "snd (raw_extract es) = embedded_messages es" using assms(4) by (rule raw_extract_valid)
  have l0: "ledger_of (get_or_empty (sessionMessages s) name) jid = []"
    using assms(5) by (simp add: chat_ledger_def)
  show "fst (raw_fallback s name jid) = embedded_messages es"
    using cm assms(2,3) ex by (simp add: raw_fallback_def split_beta Let_def)
  show "chat_ledger (snd (raw_fallback s name jid)) name jid = first_by_id (embedded_messages es)"
    using cm assms(2,3) ex l0
    by (simp add: raw_fallback_def split_beta Let_def chat_ledger_def get_or_empty_set_same
        ledger_of_set_same store_back_empty)
qed

text \<open>
  The run of the endpoint when the ledger lookup misses and the chat's payload embeds
  messages: the response is built from the embedded messages, the state is the one the
  fallback leaves, and the live fetch is not attempted.
\<close>

lemma fallback_outcome:
  assumes "decodeURIComponent ev param = Some jid"
    and "jm_get (sockets s) name = Some sk" and "sock_user sk"
    and "ledger_miss (decodeURIComponent ev) s name jid"
    and "chat_entry s name jid = Some c" and "embedded_of c = es"
    and "es \<noteq> []" and "list_all embedded_valid es"
  shows "messages_endpoint ev s name param lim =
           Inr \<lparr>response =
                  \<lparr>status = 200,
                   http_body = MessagesBody
                     (finalize (date_now ev) jid (requested_limit lim) (embedded_messages es))
                     (length (finalize (date_now ev) jid (requested_limit lim) (embedded_messages es)))
                     (unread_of (Some c)) jid None None\<rparr>,
                state_after = snd (raw_fallback s name jid), live_fetch = False\<rparr>"
proof -
  let ?L = "requested_limit lim"
  let ?M = "embedded_messages es"
  have "length ?M = length es" using assms(8) by (rule embedded_messages_length)
  with assms(7) have Mne: "?M \<noteq> []" by auto
  have rd: "getMessagesForChat (decodeURIComponent ev) s name jid (max 5 ?L) = Inr ([], s)"
    using assms(4) by (rule ledger_miss_read)
  have l0: "chat_ledger s name jid = []" using assms(4) by (rule ledger_miss_empty)
  note rf = raw_fallback_valid[OF assms(5,6,7,8) l0]
  have ce: "(case jm_get (sessionChats s) name of None \<Rightarrow> None | Some chatMap \<Rightarrow> jm_get chatMap jid) = Some c"
    using assms(5) by (simp add: chat_entry_def)
  have lf: "load_and_format ev s name jid ?L =
          Inr \<lparr>response = \<lparr>status = 200,
                     http_body = MessagesBody (finalize (date_now ev) jid ?L ?M)
                       (length (finalize (date_now ev) jid ?L ?M)) (unread_of (Some c)) jid None None\<rparr>,
               state_after = snd (raw_fallback s name jid), live_fetch = False\<rparr>"
    unfolding load_and_format_def rd ce using rf(1) Mne
    by (simp add: Let_def split_beta)
  show ?thesis
    using assms(1,2,3) lf by (simp add: messages_endpoint_def)
qed

section \<open>The ledger cap\<close>

lemma numbered_ids: "distinct (map key_id_of (numbered_msgs jid n))"
proof -
  have "map key_id_of (numbered_msgs jid n) = map (\<lambda>i. Some (replicate (Suc i) (CHR ''m''))) [0..<n]"
    by (simp add: numbered_msgs_def key_id_of_def text_msg_def comp_def)
  moreover have "inj_on (\<lambda>i. Some (replicate (Suc i) (CHR ''m''))) (set [0..<n])"
    by (rule inj_onI) (metis length_replicate option.inject nat.inject)
  ultimately show ?thesis by (simp add: distinct_map)
qed

lemma numbered_addressed: "\<forall>m \<in> set (numbered_msgs jid n). addressed_to jid m"
  by (auto simp: numbered_msgs_def addressed_to_def text_msg_def)

lemma numbered_truthy: "\<forall>m \<in> set (numbered_msgs jid n). truthy_str (key_id_of m)"
  by (auto simp: numbered_msgs_def key_id_of_def text_msg_def truthy_str_def)

lemma numbered_fresh: "\<not> exists_id (numbered_msgs jid n) (key_id_of at_new)"
  by (auto simp: exists_id_iff numbered_msgs_def at_new_def text_msg_def key_id_of_def)

lemma numbered_normalize: "map normalize_ts (numbered_msgs jid n) = numbered_msgs jid n"
  by (simp add: numbered_msgs_def normalize_ts_def text_msg_def)

lemma numbered_length: "length (numbered_msgs jid n) = n"
  by (simp add: numbered_msgs_def)

lemma history_message_one_ledger:
  assumes "msg_key msg = Some k" "key_remoteJid k = Some jid" "jid \<noteq> []" "truthy_str (key_id k)"
  shows "ledger_of (history_message_one st msg) jid = ledger_append (ledger_of st jid) msg"
  using assms by (simp add: history_message_one_def truthy_str_def ledger_of_set_same)

lemma history_embedded_one_ledger:
  assumes "unwrap e = Some msg" "msg_key msg = Some k" "truthy_str (key_id k)"
    and "jid = (if truthy_str (key_remoteJid k) then the (key_remoteJid k) else cid)" "jid \<noteq> []"
  shows "ledger_of (snd (history_embedded_one cid st e)) jid
           = ledger_append (ledger_of st jid) (normalize_ts msg)"
proof (cases "exists_id (ledger_of st jid) (key_id k)")
  case True
  have "key_id_of (normalize_ts msg) = key_id k" using assms(2) by (simp add: key_id_of_def)
  with True have "ledger_append (ledger_of st jid) (normalize_ts msg) = ledger_of st jid"
    by (simp add: ledger_append_noop)
  moreover have "history_embedded_one cid st e = (e, st)"
    using history_embedded_one_dup[OF assms(1,2,4) True] .
  ultimately show ?thesis by simp
next
  case False
  then show ?thesis
    using assms by (simp add: history_embedded_one_def Let_def ledger_of_set_same)
qed

text \<open>
  Both loops of \<^verbatim>\<open>messaging-history.set\<close>, like \<^verbatim>\<open>messages.upsert\<close>, file the
  messages of a chat by the capped append step, one after the other.
\<close>

lemma history_embedded_ledger:
  assumes "\<forall>m \<in> set ms. addressed_to jid m \<and> truthy_str (key_id_of m)" and "jid \<noteq> []"
  shows "ledger_of (snd (history_embedded cid st (map Wrapped ms))) jid
           = foldl ledger_append (ledger_of st jid) (map normalize_ts ms)"
  using assms(1)
proof (induction ms arbitrary: st)
  case Nil
  then show ?case by simp
next
  case (Cons m ms)
  from Cons.prems obtain k where k: "msg_key m = Some k" "key_remoteJid k = Some jid"
    "truthy_str (key_id k)"
    by (auto simp: addressed_to_def key_id_of_def split: option.splits)
  let ?st' = "snd (history_embedded_one cid st (Wrapped m))"
  have one: "ledger_of ?st' jid = ledger_append (ledger_of st jid) (normalize_ts m)"
    using k assms(2) by (intro history_embedded_one_ledger[of "Wrapped m" m k]) (simp_all add: truthy_str_def)
  have "snd (history_embedded cid st (map Wrapped (m # ms))) = snd (history_embedded cid ?st' (map Wrapped ms))"
    by (simp add: split_beta Let_def)
  then have "ledger_of (snd (history_embedded cid st (map Wrapped (m # ms)))) jid
               = foldl ledger_append (ledger_of ?st' jid) (map normalize_ts ms)"
    using Cons.IH[of ?st'] Cons.prems by simp
  then show ?case by (simp add: one)
qed

lemma history_messages_ledger:
  assumes "\<forall>m \<in> set ms. addressed_to jid m \<and> truthy_str (key_id_of m)" and "jid \<noteq> []"
  shows "ledger_of (foldl history_message_one st ms) jid = foldl ledger_append (ledger_of st jid) ms"
  using assms(1)
proof (induction ms arbitrary: st)
  case Nil
  then show ?case by simp
next
  case (Cons m ms)
  from Cons.prems obtain k where k: "msg_key m = Some k" "key_remoteJid k = Some jid"
    "truthy_str (key_id k)"
    by (auto simp: addressed_to_def key_id_of_def split: option.splits)
  have "ledger_of (history_message_one st m) jid = ledger_append (ledger_of st jid) m"
    using k assms(2) by (intro history_message_one_ledger[of m k]) simp_all
  with Cons.IH[of "history_message_one st m"] Cons.prems show ?case by simp
qed

lemma history_chat_ledger:
  assumes "chat_id c = Some cid" "cid \<noteq> []" "embedded_of c = map Wrapped ms"
    and "\<forall>m \<in> set ms. addressed_to jid m \<and> truthy_str (key_id_of m)" and "jid \<noteq> []"
  shows "chat_ledger (messaging_history_set name \<lparr>h_chats = Some [c], h_messages = None\<rparr> s) name jid
           = foldl ledger_append (chat_ledger s name jid) (map normalize_ts ms)"
  using assms(1,2,3) history_embedded_ledger[OF assms(4,5), of cid "get_or_empty (sessionMessages s) name"]
  by (simp add: messaging_history_set_def history_chat_one_def chat_ledger_def split_beta Let_def
      get_or_empty_set_same)

lemma history_root_ledger:
  assumes "\<forall>m \<in> set ms. addressed_to jid m \<and> truthy_str (key_id_of m)" and "jid \<noteq> []"
  shows "chat_ledger (messaging_history_set name \<lparr>h_chats = None, h_messages = Some ms\<rparr> s) name jid
           = foldl ledger_append (chat_ledger s name jid) ms"
  using history_messages_ledger[OF assms, of "get_or_empty (sessionMessages s) name"]
  by (simp add: messaging_history_set_def chat_ledger_def split_beta Let_def get_or_empty_set_same)

lemma raw_extract_plain:
  assumes "\<forall>m \<in> set ms. truthy_str (key_id_of m) \<and> normalize_ts m = m"
  shows "raw_extract (map Wrapped ms) = (map Wrapped ms, ms)"
  using assms
  by (induction ms) (auto simp: raw_extract_def raw_extract_one_def List.map_filter_simps)

lemma numbered_plain:
  "\<forall>m \<in> set (numbered_msgs jid n). truthy_str (key_id_of m) \<and> normalize_ts m = m"
  by (auto simp: numbered_msgs_def key_id_of_def text_msg_def truthy_str_def normalize_ts_def)

lemma big_state_fallback:
  "raw_fallback big_state ''main'' ''4915@s.whatsapp.net''
     = (numbered_msgs ''4915@s.whatsapp.net'' 101, overfull_state)"
proof -
  let ?J = "''4915@s.whatsapp.net''"
  have sb: "store_back [] (numbered_msgs ?J 101) = numbered_msgs ?J 101"
    using store_back_distinct[of "[]" "numbered_msgs ?J 101"] numbered_ids[of ?J 101] by simp
  have ne: "map Wrapped (numbered_msgs ?J 101) \<noteq> []" by (simp add: numbered_msgs_def)
  show ?thesis
    using ne
    by (simp add: raw_fallback_def big_state_def overfull_state_def connected_state_def
        empty_state_def big_chat_def plain_chat_def jm_get_def embedded_of_def set_embedded_def
        raw_extract_plain[OF numbered_plain] get_or_empty_def ledger_of_def sb)
qed

text \<open>
  Claim C2: the bound of 100 entries does not hold of every append to a chat's array.
  The two event handlers keep it (\<open>messages_upsert_cap\<close>, \<open>messaging_history_set_cap\<close>),
  each with the comment \<^verbatim>\<open>Keep only last 100 messages per chat to avoid memory issues\<close>,
  and evict in the order of insertion (\<open>foldl_ledger_append\<close>). The loop by which the
  messages endpoint writes the messages embedded in a chat's payload back into the same
  array pushes without the test of the length.

  A \<^verbatim>\<open>chats.update\<close> event delivers a chat that embeds 101 messages with pairwise
  different ids; the chat's array is empty and every array is within the bound. The
  request for the chat's messages is answered from the payload, and afterwards the array
  holds all 101 messages. The next \<^verbatim>\<open>messages.upsert\<close> of a new id pushes a 102nd
  entry and removes one: the array stays at 101. The same 101 messages delivered by
  \<^verbatim>\<open>messages.upsert\<close>, by the \<^verbatim>\<open>messages\<close> of a history event or embedded in a chat of
  a history event leave 100 entries.
\<close>

theorem write_back_exceeds_cap:
  "chats_update ''main'' [big_chat] connected_state = big_state
   \<and> within_cap big_state
   \<and> chat_ledger big_state ''main'' ''4915@s.whatsapp.net'' = []
   \<and> messages_endpoint demo_env big_state ''main'' ''4915@s.whatsapp.net'' (Num 20)
      = Inr \<lparr>response =
               \<lparr>status = 200,
                http_body = MessagesBody
                  (finalize 2500000 ''4915@s.whatsapp.net'' 20 (numbered_msgs ''4915@s.whatsapp.net'' 101))
                  20 0 ''4915@s.whatsapp.net'' None None\<rparr>,
             state_after = overfull_state, live_fetch = False\<rparr>
   \<and> chat_ledger overfull_state ''main'' ''4915@s.whatsapp.net''
      = numbered_msgs ''4915@s.whatsapp.net'' 101
   \<and> length (chat_ledger overfull_state ''main'' ''4915@s.whatsapp.net'') = 101
   \<and> \<not> within_cap overfull_state
   \<and> chat_ledger (messages_upsert ''main'' [at_new] overfull_state) ''main'' ''4915@s.whatsapp.net''
      = tl (numbered_msgs ''4915@s.whatsapp.net'' 101) @ [at_new]
   \<and> length (chat_ledger (messages_upsert ''main'' [at_new] overfull_state)
               ''main'' ''4915@s.whatsapp.net'') = 101
   \<and> chat_ledger (messages_upsert ''main'' (numbered_msgs ''4915@s.whatsapp.net'' 101) connected_state)
        ''main'' ''4915@s.whatsapp.net''
      = tl (numbered_msgs ''4915@s.whatsapp.net'' 101)
   \<and> chat_ledger (messaging_history_set ''main''
          \<lparr>h_chats = None, h_messages = Some (numbered_msgs ''4915@s.whatsapp.net'' 101)\<rparr>
          connected_state) ''main'' ''4915@s.whatsapp.net''
      = tl (numbered_msgs ''4915@s.whatsapp.net'' 101)
   \<and> chat_ledger (messaging_history_set ''main'' \<lparr>h_chats = Some [big_chat], h_messages = None\<rparr>
          connected_state) ''main'' ''4915@s.whatsapp.net''
      = tl (numbered_msgs ''4915@s.whatsapp.net'' 101)
   \<and> length (tl (numbered_msgs ''4915@s.whatsapp.net'' 101)) = 100"
proof -
  let ?J = "''4915@s.whatsapp.net''"
  let ?N = "numbered_msgs ?J 101"
  have Nne: "?N \<noteq> []" by (simp add: numbered_msgs_def)
  have both: "\<forall>m \<in> set ?N. addressed_to ?J m \<and> truthy_str (key_id_of m)"
    using numbered_addressed[of ?J 101] numbered_truthy[of ?J 101] by blast
  have c1: "chats_update ''main'' [big_chat] connected_state = big_state"
    by (simp add: chats_update_def chat_update_one_def big_chat_def plain_chat_def
        connected_state_def empty_state_def big_state_def get_or_empty_def jm_get_def)
  have c2: "within_cap big_state"
    by (simp add: within_cap_def store_cap_def big_state_def connected_state_def empty_state_def)
  have e0: "chat_ledger connected_state ''main'' ?J = []"
    by (simp add: chat_ledger_def connected_state_def empty_state_def get_or_empty_def jm_get_def
        ledger_of_def)
  have c3: "chat_ledger big_state ''main'' ?J = []"
    by (simp add: chat_ledger_def big_state_def connected_state_def empty_state_def
        get_or_empty_def jm_get_def ledger_of_def)
  have d: "decodeURIComponent demo_env ?J = Some ?J" by (simp add: demo_env_def demo_decode_def)
  have sk: "jm_get (sockets big_state) ''main'' = Some \<lparr>sock_handle = 1, sock_user = True\<rparr>"
    by (simp add: big_state_def connected_state_def empty_state_def jm_get_def)
  have lm: "ledger_miss (decodeURIComponent demo_env) big_state ''main'' ?J"
    by (simp add: ledger_miss_def big_state_def connected_state_def empty_state_def jm_get_def
        ledger_of_def)
  have ce: "chat_entry big_state ''main'' ?J = Some big_chat"
    by (simp add: chat_entry_def big_state_def connected_state_def empty_state_def jm_get_def)
  have eo: "embedded_of big_chat = map Wrapped ?N"
    by (simp add: embedded_of_def big_chat_def plain_chat_def)
  have ene: "map Wrapped ?N \<noteq> []" using Nne by simp
  have va: "list_all embedded_valid (map Wrapped ?N)"
    using numbered_truthy[of ?J 101] by (simp add: list_all_iff embedded_valid_def)
  have em: "embedded_messages (map Wrapped ?N) = ?N"
    by (simp add: embedded_messages_def List.map_filter_def comp_def numbered_normalize)
  have un: "unread_of (Some big_chat) = 0"
    by (simp add: unread_of_def big_chat_def plain_chat_def truthy_int_def)
  have fl: "length (finalize 2500000 ?J 20 ?N) = 20"
    by (simp add: finalize_valid[OF numbered_truthy] length_js_sort numbered_length)
  have dn: "date_now demo_env = 2500000" by (simp add: demo_env_def)
  have c4: "messages_endpoint demo_env big_state ''main'' ?J (Num 20)
      = Inr \<lparr>response =
               \<lparr>status = 200,
                http_body = MessagesBody (finalize 2500000 ?J 20 ?N) 20 0 ?J None None\<rparr>,
             state_after = overfull_state, live_fetch = False\<rparr>"
    using fallback_outcome[OF d sk _ lm ce eo ene va, of "Num 20"]
    by (simp add: em un fl dn requested_limit_def big_state_fallback)
  have c5: "chat_ledger overfull_state ''main'' ?J = ?N"
    by (simp add: chat_ledger_def overfull_state_def get_or_empty_def jm_get_def ledger_of_def)
  have c6: "\<not> within_cap overfull_state"
    by (simp add: within_cap_def store_cap_def overfull_state_def numbered_length)
  have "chat_ledger (messages_upsert ''main'' [at_new] overfull_state) ''main'' ?J
          = ledger_append ?N at_new"
    using messages_upsert_ledger[of "[at_new]" ?J "''main''" overfull_state]
    by (simp add: c5 addressed_to_def at_new_def text_msg_def)
  also have "\<dots> = tl ?N @ [at_new]"
  proof -
    obtain a rest where ar: "?N = a # rest" using Nne by (cases ?N) auto
    have "length (a # rest) = 101" using numbered_length[of ?J 101] ar by simp
    then have lr: "length rest = 100" by simp
    have "\<not> exists_id (a # rest) (key_id_of at_new)" using numbered_fresh[of ?J 101] ar by simp
    then have "ledger_append (a # rest) at_new = rest @ [at_new]"
      using lr by (simp add: ledger_append_def Let_def)
    then show ?thesis unfolding ar by simp
  qed
  finally have c7: "chat_ledger (messages_upsert ''main'' [at_new] overfull_state) ''main'' ?J
                      = tl ?N @ [at_new]" .
  have fo: "foldl ledger_append [] ?N = tl ?N"
    using foldl_ledger_append[of "[]" ?N] numbered_ids[of ?J 101]
    by (simp add: numbered_length drop_Suc)
  have c8: "chat_ledger (messages_upsert ''main'' ?N connected_state) ''main'' ?J = tl ?N"
    using messages_upsert_ledger[of ?N ?J "''main''" connected_state] numbered_addressed[of ?J 101]
    by (simp add: e0 fo)
  have c9: "chat_ledger (messaging_history_set ''main'' \<lparr>h_chats = None, h_messages = Some ?N\<rparr>
              connected_state) ''main'' ?J = tl ?N"
    using history_root_ledger[OF both, of "''main''" connected_state] by (simp add: e0 fo)
  have c10: "chat_ledger (messaging_history_set ''main'' \<lparr>h_chats = Some [big_chat], h_messages = None\<rparr>
              connected_state) ''main'' ?J = tl ?N"
    using history_chat_ledger[of big_chat ?J ?N ?J "''main''" connected_state] eo both
    by (simp add: e0 fo numbered_normalize big_chat_def plain_chat_def)
  have c11: "length (tl ?N) = 100" by (simp add: numbered_length)
  show ?thesis
    using c1 c2 c3 c4 c5 c6 c7 c8 c9 c10 c11 by (simp add: numbered_length)
qed

section \<open>Appending is idempotent by message id\<close>

text \<open>
  Claim C3. A message whose id is already in the chat's array leaves the array as it is,
  so a second append with the same id is discarded, whatever its content, and an array
  with pairwise different ids then holds exactly one entry with that id. The same holds
  for the handlers: a second \<^verbatim>\<open>messages.upsert\<close> of the same chat id and message id
  leaves the whole state unchanged, likewise the loop over \<^verbatim>\<open>history.messages\<close>, and an
  embedded history message whose id is stored changes neither the store nor the message.
\<close>

theorem ledger_append_idempotent:
  "(exists_id cm (key_id_of m) \<longrightarrow> ledger_append cm m = cm)
   \<and> (key_id_of m' = key_id_of m \<longrightarrow>
        ledger_append (ledger_append cm m) m' = ledger_append cm m
        \<and> (distinct (map key_id_of cm) \<longrightarrow>
             length (filter (\<lambda>x. key_id_of x = key_id_of m) (ledger_append (ledger_append cm m) m')) = 1))
   \<and> (msg_key m = Some k \<and> msg_key m' = Some k' \<and> key_remoteJid k' = key_remoteJid k
        \<and> key_id k' = key_id k \<longrightarrow>
        upsert_one name (upsert_one name s m) m' = upsert_one name s m
        \<and> history_message_one (history_message_one st m) m' = history_message_one st m)
   \<and> (unwrap e = Some msg \<and> msg_key msg = Some k
        \<and> exists_id (ledger_of st (if truthy_str (key_remoteJid k) then the (key_remoteJid k) else cid))
             (key_id k) \<longrightarrow>
        history_embedded_one cid st e = (e, st))"
proof (intro conjI impI)
  assume "exists_id cm (key_id_of m)"
  then show "ledger_append cm m = cm" by (rule ledger_append_noop)
next
  assume ids: "key_id_of m' = key_id_of m"
  show twice: "ledger_append (ledger_append cm m) m' = ledger_append cm m"
    using ledger_append_exists[of cm m] ids by (simp add: ledger_append_noop)
  assume "distinct (map key_id_of cm)"
  then have "distinct (map key_id_of (ledger_append cm m))" by (rule ledger_append_distinct)
  moreover have "key_id_of m \<in> key_id_of ` set (ledger_append cm m)"
    using ledger_append_exists[of cm m] by (simp add: exists_id_iff)
  ultimately have "length (filter (\<lambda>x. key_id_of x = key_id_of m) (ledger_append cm m)) = 1"
    by (rule distinct_count_one)
  then show "length (filter (\<lambda>x. key_id_of x = key_id_of m) (ledger_append (ledger_append cm m) m')) = 1"
    by (simp add: twice)
next
  assume a: "msg_key m = Some k \<and> msg_key m' = Some k' \<and> key_remoteJid k' = key_remoteJid k
        \<and> key_id k' = key_id k"
  then show "upsert_one name (upsert_one name s m) m' = upsert_one name s m"
    by (intro upsert_one_twice[of m k m' k']) simp_all
  from a show "history_message_one (history_message_one st m) m' = history_message_one st m"
    by (intro history_message_one_twice[of m k m' k']) simp_all
next
  assume a: "unwrap e = Some msg \<and> msg_key msg = Some k
        \<and> exists_id (ledger_of st (if truthy_str (key_remoteJid k) then the (key_remoteJid k) else cid))
             (key_id k)"
  then show "history_embedded_one cid st e = (e, st)"
    using history_embedded_one_dup[OF _ _ refl, of e msg k st cid] by blast
qed

theorem ledger_append_idempotent_witness:
  "exists_id [text_msg ''c@g.us'' ''A1'' False Undefined ''first'']
      (key_id_of (text_msg ''c@g.us'' ''A1'' False Undefined ''second''))
   \<and> ledger_append [text_msg ''c@g.us'' ''A1'' False Undefined ''first'']
        (text_msg ''c@g.us'' ''A1'' False Undefined ''second'')
      = [text_msg ''c@g.us'' ''A1'' False Undefined ''first'']
   \<and> ledger_append (ledger_append [] (text_msg ''c@g.us'' ''A1'' False Undefined ''first''))
        (text_msg ''c@g.us'' ''A1'' False Undefined ''second'')
      = [text_msg ''c@g.us'' ''A1'' False Undefined ''first'']
   \<and> chat_ledger
        (upsert_one ''main'' (upsert_one ''main'' empty_state (text_msg ''c@g.us'' ''A1'' False Undefined ''first''))
           (text_msg ''c@g.us'' ''A1'' False Undefined ''second''))
        ''main'' ''c@g.us''
      = [text_msg ''c@g.us'' ''A1'' False Undefined ''first'']
   \<and> history_message_one
        (history_message_one [] (text_msg ''c@g.us'' ''A1'' False Undefined ''first''))
        (text_msg ''c@g.us'' ''A1'' False Undefined ''second'')
      = [(''c@g.us'', [text_msg ''c@g.us'' ''A1'' False Undefined ''first''])]
   \<and> history_embedded_one ''c@g.us''
        [(''c@g.us'', [text_msg ''c@g.us'' ''A1'' False Undefined ''first''])]
        (Wrapped (text_msg ''c@g.us'' ''A1'' False (Str ''1700000000'') ''second''))
      = (Wrapped (text_msg ''c@g.us'' ''A1'' False (Str ''1700000000'') ''second''),
         [(''c@g.us'', [text_msg ''c@g.us'' ''A1'' False Undefined ''first''])])"
proof -
  let ?m = "text_msg ''c@g.us'' ''A1'' False Undefined ''first''"
  let ?m' = "text_msg ''c@g.us'' ''A1'' False Undefined ''second''"
  let ?w = "text_msg ''c@g.us'' ''A1'' False (Str ''1700000000'') ''second''"
  let ?k = "\<lparr>key_remoteJid = Some ''c@g.us'', key_id = Some ''A1'', key_fromMe = False\<rparr>"
  have ex: "exists_id [?m] (key_id_of ?m')"
    by (simp add: exists_id_def key_id_of_def text_msg_def)
  have one: "ledger_append [] ?m = [?m]"
    by (simp add: ledger_append_def exists_id_def)
  have hm: "history_message_one [] ?m = [(''c@g.us'', [?m])]"
    by (simp add: history_message_one_def text_msg_def truthy_str_def ledger_of_def jm_get_def
        ledger_append_def exists_id_def)
  have e0: "chat_ledger empty_state ''main'' ''c@g.us'' = []"
    by (simp add: chat_ledger_def empty_state_def get_or_empty_def jm_get_def ledger_of_def)
  have "addressed_to ''c@g.us'' ?m" by (simp add: addressed_to_def text_msg_def)
  then have up: "chat_ledger (upsert_one ''main'' empty_state ?m) ''main'' ''c@g.us'' = [?m]"
    using one by (simp add: upsert_one_ledger e0)
  have lo: "ledger_of [(''c@g.us'', [?m])] ''c@g.us'' = [?m]"
    by (simp add: ledger_of_def jm_get_def)
  have k: "msg_key ?m = Some ?k" "msg_key ?m' = Some ?k" "msg_key ?w = Some ?k"
    by (simp_all add: text_msg_def)
  have ex2: "exists_id [?m] (Some ''A1'')"
    by (simp add: exists_id_def key_id_of_def text_msg_def)
  note t1 = ledger_append_idempotent[where cm = "[?m]" and m = ?m' and m' = ?m' and k = ?k
      and k' = ?k and name = "''main''" and s = empty_state and st = "[(''c@g.us'', [?m])]"
      and e = "Wrapped ?w" and msg = ?w and cid = "''c@g.us''"]
  note t2 = ledger_append_idempotent[where cm = "[]" and m = ?m and m' = ?m' and k = ?k
      and k' = ?k and name = "''main''" and s = empty_state and st = "[]"
      and e = "Wrapped ?w" and msg = ?w and cid = "''c@g.us''"]
  have a1: "ledger_append [?m] ?m' = [?m]" using t1 ex by blast
  have ids: "key_id_of ?m' = key_id_of ?m" by (simp add: key_id_of_def text_msg_def)
  have a2: "ledger_append (ledger_append [] ?m) ?m' = [?m]" using t2 ids one by simp
  have a3: "upsert_one ''main'' (upsert_one ''main'' empty_state ?m) ?m' = upsert_one ''main'' empty_state ?m"
    using t2 k by simp
  have a4: "history_message_one (history_message_one [] ?m) ?m' = [(''c@g.us'', [?m])]"
    using t2 k hm by simp
  have a5: "history_embedded_one ''c@g.us'' [(''c@g.us'', [?m])] (Wrapped ?w)
            = (Wrapped ?w, [(''c@g.us'', [?m])])"
    using t1 k(3) ex2 lo by (simp add: truthy_str_def)
  show ?thesis using ex a1 a2 a3 up a4 a5 by simp
qed

section \<open>Timestamp normalisation and the order of a read\<close>

text \<open>
  Claim C4. A timestamp given as a string of decimal digits normalises to its number and
  a missing timestamp to 0: a read of the messages of seconds 1700000000 (a string), 5
  and none returns them in the order none, 5, 1700000000. A timestamp that is a
  non-numeric string does not normalise to 0. \<^verbatim>\<open>messages.upsert\<close> stores a
  message as it arrives, here a message of second 5 and after it one whose
  \<^verbatim>\<open>messageTimestamp\<close> is the string \<^verbatim>\<open>abc\<close>. The string is truthy, and \<^verbatim>\<open>getTs\<close>
  returns \<^verbatim>\<open>Number("abc")\<close> without a test of the result: the normalised timestamp is
  \<^verbatim>\<open>NaN\<close> and not 0, in both variants of the comparator. The comparison with the other
  message is \<^verbatim>\<open>NaN\<close> in either direction, so the read leaves the message behind the one
  of second 5 instead of placing it first.

  The other paths of the file treat such a timestamp as the claim says. The ingestion of
  embedded history messages (and the fallback on a chat's payload) replaces the string by
  \<^verbatim>\<open>parseInt("abc", 10)\<close>; this \<^verbatim>\<open>NaN\<close> is falsy, \<^verbatim>\<open>getTs\<close> then returns 0, and the
  read places the message before the one of second 5. The response formatter tests
  \<^verbatim>\<open>!isNaN(ts)\<close> and answers with no timestamp.
\<close>

theorem nonnumeric_timestamp_not_zero:
  "getTs at_string = Num 1700000000 \<and> getTs at_none = Num 0
   \<and> getMessagesForChat Some (ledger_state ''4915@s.whatsapp.net'' [at_string, at_five, at_none])
        ''main'' ''4915@s.whatsapp.net'' 10
      = Inr ([at_none, at_five, at_string],
             ledger_state ''4915@s.whatsapp.net'' [at_none, at_five, at_string])
   \<and> chat_ledger (messages_upsert ''main'' [at_five, at_abc] empty_state) ''main'' ''4915@s.whatsapp.net''
     = [at_five, at_abc]
   \<and> messageTimestamp at_abc = Str ''abc''
   \<and> getTs at_abc = NaN \<and> getTs_v0 at_abc = NaN \<and> getTs at_five = Num 5
   \<and> cmp_ts at_abc at_five = NaN \<and> cmp_ts at_five at_abc = NaN
   \<and> getMessagesForChat Some (messages_upsert ''main'' [at_five, at_abc] empty_state)
        ''main'' ''4915@s.whatsapp.net'' 10
      = Inr ([at_five, at_abc], messages_upsert ''main'' [at_five, at_abc] empty_state)
   \<and> normalize_ts at_abc = at_abc\<lparr>messageTimestamp := Number NaN\<rparr>
   \<and> getTs (normalize_ts at_abc) = Num 0
   \<and> getMessagesForChat Some (ledger_state ''4915@s.whatsapp.net'' [at_five, normalize_ts at_abc])
        ''main'' ''4915@s.whatsapp.net'' 10
      = Inr ([normalize_ts at_abc, at_five],
             ledger_state ''4915@s.whatsapp.net'' [normalize_ts at_abc, at_five])
   \<and> format_timestamp (messageTimestamp at_abc) = None"
  by code_simp

section \<open>One canonical record per id, unread counts summed\<close>

lemma js_sort_single: "js_sort cmp [x] = [x]"
  by (simp add: js_sort_def)

lemma format_phone_chat:
  "format_chat contacts phone_chat =
     Inr (Some \<lparr>f_id = ''A@s.whatsapp.net'', originalId = ''A@s.whatsapp.net'',
                f_name = ''A@s.whatsapp.net'', f_type = Individual, f_unreadCount = 2,
                lastMessageTime = None, f_pinned = False, f_raw = phone_chat\<rparr>)"
  by (simp add: format_chat_def phone_chat_def plain_chat_def truthy_str_def classify_def
      endsWith_def or_else_def phone_of_def unread_field_def truthy_int_def)

lemma format_lid_chat:
  assumes "contacts ''B@lid'' = Some c" "phoneNumber c = Some ''A''"
  shows "\<exists>n. format_chat contacts lid_chat =
     Inr (Some \<lparr>f_id = ''A@s.whatsapp.net'', originalId = ''B@lid'',
                f_name = n, f_type = Individual, f_unreadCount = 3,
                lastMessageTime = None, f_pinned = False, f_raw = lid_chat\<rparr>)"
  using assms
  by (simp add: format_chat_def lid_chat_def plain_chat_def truthy_str_def classify_def
      endsWith_def unread_field_def truthy_int_def)

text \<open>
  Claim C1. Whenever the contact table resolves \<^verbatim>\<open>B@lid\<close> to phone \<^verbatim>\<open>A\<close>, the batch of
  the phone record with 2 and the anonymous record with 3 unread messages, in either
  order, yields exactly one record; its id is \<^verbatim>\<open>A@s.whatsapp.net\<close> and its unread
  count 5. For every batch that the reconciler answers: the ids of the records are
  pairwise different, they are the canonical ids of the raw records that were not
  skipped, and the unread count of each record is the sum of the unread counts of all raw
  records with that canonical id.
\<close>

theorem reconcile_merges:
  "(contacts ''B@lid'' = Some c \<and> phoneNumber c = Some ''A'' \<longrightarrow>
      (\<exists>r. reconcile lc contacts [phone_chat, lid_chat] = Inr [r]
            \<and> f_id r = ''A@s.whatsapp.net'' \<and> f_unreadCount r = 5)
      \<and> (\<exists>r. reconcile lc contacts [lid_chat, phone_chat] = Inr [r]
            \<and> f_id r = ''A@s.whatsapp.net'' \<and> f_unreadCount r = 5))
   \<and> (reconcile lc contacts chats = Inr out \<longrightarrow>
        distinct (map f_id out)
        \<and> f_id ` set out = f_id ` set (formatted_of contacts chats)
        \<and> (\<forall>r \<in> set out. f_unreadCount r =
              sum_list (map f_unreadCount (filter (\<lambda>f. f_id f = f_id r) (formatted_of contacts chats)))))"
proof (intro conjI impI)
  assume a: "contacts ''B@lid'' = Some c \<and> phoneNumber c = Some ''A''"
  then obtain n where l: "format_chat contacts lid_chat =
     Inr (Some \<lparr>f_id = ''A@s.whatsapp.net'', originalId = ''B@lid'',
                f_name = n, f_type = Individual, f_unreadCount = 3,
                lastMessageTime = None, f_pinned = False, f_raw = lid_chat\<rparr>)"
    using format_lid_chat[of contacts c] by blast
  show "\<exists>r. reconcile lc contacts [phone_chat, lid_chat] = Inr [r]
            \<and> f_id r = ''A@s.whatsapp.net'' \<and> f_unreadCount r = 5"
    by (simp add: reconcile_def format_phone_chat l merge_chat_def jm_get_def js_sort_single
        f_id_merge_into unread_merge_into)
  show "\<exists>r. reconcile lc contacts [lid_chat, phone_chat] = Inr [r]
            \<and> f_id r = ''A@s.whatsapp.net'' \<and> f_unreadCount r = 5"
    by (simp add: reconcile_def format_phone_chat l merge_chat_def jm_get_def js_sort_single
        f_id_merge_into unread_merge_into)
next
  assume r: "reconcile lc contacts chats = Inr out"
  then obtain m where m: "merge_loop contacts [] chats = Inr m"
    and out: "out = js_sort (cmp_chats lc) (map snd m)"
    by (auto simp: reconcile_def split: sum.splits)
  let ?fs = "formatted_of contacts chats"
  have mf: "m = foldl merge_chat [] ?fs" using m by (rule merge_loop_foldl)
  have k: "keyed m" unfolding mf by (rule keyed_foldl) (simp add: keyed_def)
  have so: "set out = snd ` set m" by (simp add: out set_js_sort)
  have "mset (map f_id out) = mset (map f_id (map snd m))"
    unfolding out by (simp add: mset_js_sort del: map_map)
  then have "distinct (map f_id out) \<longleftrightarrow> distinct (map f_id (map snd m))"
    by (rule mset_eq_imp_distinct_iff)
  then show "distinct (map f_id out)" using k by (simp add: keyed_ids[OF k] keyed_def del: map_map)
  have "f_id ` set out = set (map f_id (map snd m))" by (simp add: so image_image)
  also have "\<dots> = fst ` set m" by (simp add: keyed_ids[OF k] del: map_map)
  also have "\<dots> = f_id ` set ?fs" unfolding mf by (simp add: keys_foldl)
  finally show "f_id ` set out = f_id ` set ?fs" .
  show "\<forall>r \<in> set out. f_unreadCount r =
              sum_list (map f_unreadCount (filter (\<lambda>f. f_id f = f_id r) ?fs))"
  proof
    fix r assume "r \<in> set out"
    then have "jm_get m (f_id r) = Some r" using k so by (intro keyed_lookup) simp_all
    then have "f_unreadCount r = unread_at m (f_id r)" by (simp add: unread_at_def)
    also have "\<dots> = sum_list (map f_unreadCount (filter (\<lambda>f. f_id f = f_id r) ?fs))"
    proof -
      have "unread_at [] (f_id r) = 0" by (simp add: unread_at_def jm_get_def)
      then show ?thesis unfolding mf by (simp add: unread_at_foldl)
    qed
    finally show "f_unreadCount r = sum_list (map f_unreadCount (filter (\<lambda>f. f_id f = f_id r) ?fs))" .
  qed
qed


theorem reconcile_merges_witness:
  "alice_contacts ''B@lid'' = Some \<lparr>contact_name = Some ''Alice'', contact_notify = None,
                      contact_pushName = None, phoneNumber = Some ''A''\<rparr>
   \<and> reconcile flat_compare alice_contacts [phone_chat, lid_chat]
      = Inr [\<lparr>f_id = ''A@s.whatsapp.net'', originalId = ''A@s.whatsapp.net'',
              f_name = ''A@s.whatsapp.net'', f_type = Individual, f_unreadCount = 5,
              lastMessageTime = None, f_pinned = False, f_raw = phone_chat\<rparr>]
   \<and> distinct (map f_id [\<lparr>f_id = ''A@s.whatsapp.net'', originalId = ''A@s.whatsapp.net'',
              f_name = ''A@s.whatsapp.net'', f_type = Individual, f_unreadCount = 5,
              lastMessageTime = None, f_pinned = False, f_raw = phone_chat\<rparr>])
   \<and> sum_list (map f_unreadCount
         (filter (\<lambda>f. f_id f = ''A@s.whatsapp.net'') (formatted_of alice_contacts [phone_chat, lid_chat])))
      = 5"
proof -
  let ?c = "\<lparr>contact_name = Some ''Alice'', contact_notify = None,
                      contact_pushName = None, phoneNumber = Some ''A''\<rparr>"
  let ?r = "\<lparr>f_id = ''A@s.whatsapp.net'', originalId = ''A@s.whatsapp.net'',
              f_name = ''A@s.whatsapp.net'', f_type = Individual, f_unreadCount = 5,
              lastMessageTime = None, f_pinned = False, f_raw = phone_chat\<rparr>"
  have c: "alice_contacts ''B@lid'' = Some ?c" by (simp add: alice_contacts_def)
  have l: "format_chat alice_contacts lid_chat =
     Inr (Some \<lparr>f_id = ''A@s.whatsapp.net'', originalId = ''B@lid'',
                f_name = ''Alice'', f_type = Individual, f_unreadCount = 3,
                lastMessageTime = None, f_pinned = False, f_raw = lid_chat\<rparr>)"
    by (simp add: format_chat_def lid_chat_def plain_chat_def truthy_str_def classify_def
      endsWith_def unread_field_def truthy_int_def alice_contacts_def or_else_def)
  have run: "reconcile flat_compare alice_contacts [phone_chat, lid_chat] = Inr [?r]"
    by (simp add: reconcile_def format_phone_chat l merge_chat_def jm_get_def js_sort_single
        merge_into_def)
  note t = reconcile_merges[where contacts = alice_contacts and c = ?c and lc = flat_compare
      and chats = "[phone_chat, lid_chat]" and out = "[?r]"]
  have d: "distinct (map f_id [?r])" using t run by blast
  have "\<forall>r \<in> set [?r]. f_unreadCount r =
          sum_list (map f_unreadCount (filter (\<lambda>f. f_id f = f_id r)
             (formatted_of alice_contacts [phone_chat, lid_chat])))"
    using t run by blast
  then have s: "sum_list (map f_unreadCount (filter (\<lambda>f. f_id f = ''A@s.whatsapp.net'')
             (formatted_of alice_contacts [phone_chat, lid_chat]))) = 5"
    by simp
  show ?thesis using c run d s by simp
qed

section \<open>The fallback on the embedded messages\<close>

lemma emb_norm:
  "embedded_messages [Wrapped emb_one, Wrapped emb_two, Wrapped emb_three]
     = [emb_one\<lparr>messageTimestamp := Number (Num 1000)\<rparr>, emb_two, emb_three]"
  by code_simp

text \<open>
  Claim C5 as stated does not hold. The loop that collects the embedded messages has no
  test for a repeated id; only the loop that writes them back into the ledger has one. For
  a payload whose first and last element carry the id \<^verbatim>\<open>E2\<close> the response lists three
  entries, two of them with that id, while the ledger receives two messages. The lookup
  in the ledger comes first: when it reaches a stored id of another chat that
  \<^verbatim>\<open>decodeURIComponent\<close> rejects, the exception ends the request with the error
  listing, although the ledger holds nothing for the requested chat and its payload
  embeds three messages. And from an embedded element that is a message object with a
  content payload, not a wrapper, \<^verbatim>\<open>msgWrapper.message || msgWrapper\<close> takes the
  payload, which has no \<^verbatim>\<open>key\<close>: three such elements give no message, and the chain
  goes on to \<^verbatim>\<open>loadMessages\<close>.
\<close>

theorem raw_payload_fallback_counterexample:
  "chat_ledger repeated_state ''main'' ''4915@s.whatsapp.net'' = []
   \<and> embedded_of repeated_chat = [Wrapped emb_two, Wrapped emb_three, Wrapped emb_two_again]
   \<and> messages_endpoint demo_env repeated_state ''main'' ''4915@s.whatsapp.net'' (Num 1000)
      = Inr \<lparr>response =
               \<lparr>status = 200,
                http_body = MessagesBody
                  [format_message 2500000 ''4915@s.whatsapp.net'' emb_three,
                   format_message 2500000 ''4915@s.whatsapp.net'' emb_two_again,
                   format_message 2500000 ''4915@s.whatsapp.net'' emb_two]
                  3 0 ''4915@s.whatsapp.net'' None None\<rparr>,
             state_after = repeated_state
               \<lparr>sessionMessages := [(''main'', [(''4915@s.whatsapp.net'', [emb_two, emb_three])])]\<rparr>,
             live_fetch = False\<rparr>
   \<and> map m_id [format_message 2500000 ''4915@s.whatsapp.net'' emb_three,
                format_message 2500000 ''4915@s.whatsapp.net'' emb_two_again,
                format_message 2500000 ''4915@s.whatsapp.net'' emb_two]
      = [Some ''E3'', Some ''E2'', Some ''E2'']
   \<and> chat_ledger blocked_state ''main'' ''4915@s.whatsapp.net'' = []
   \<and> chat_entry blocked_state ''main'' ''4915@s.whatsapp.net'' = Some payload_chat
   \<and> embedded_of payload_chat = [Wrapped emb_one, Wrapped emb_two, Wrapped emb_three]
   \<and> messages_endpoint demo_env blocked_state ''main'' ''4915@s.whatsapp.net'' (Num 1000)
      = Inr \<lparr>response =
               \<lparr>status = 200,
                http_body = MessagesBody [] 0 0 ''4915@s.whatsapp.net'' (Some ''URI malformed'')
                  (Some ''Error loading messages: URI malformed. Messages are only available if the chat was recently opened on the linked device.'')\<rparr>,
             state_after = blocked_state, live_fetch = False\<rparr>
   \<and> chat_ledger direct_state ''main'' ''4915@s.whatsapp.net'' = []
   \<and> embedded_of direct_chat = [Direct emb_one, Direct emb_two, Direct emb_three]
   \<and> messages_endpoint demo_env direct_state ''main'' ''4915@s.whatsapp.net'' (Num 1000)
      = Inr \<lparr>response =
               \<lparr>status = 200,
                http_body = MessagesBody [] 0 0 ''4915@s.whatsapp.net'' None
                  (Some no_messages_warning)\<rparr>,
             state_after = direct_state
               \<lparr>sessionMessages := [(''main'', [(''4915@s.whatsapp.net'', [])])]\<rparr>,
             live_fetch = True\<rparr>"
  by code_simp

text \<open>
  Claim C5, amended. Take a request of a connected session for which the ledger lookup
  misses (it ends without a decoding error and finds no message; by
  \<open>ledger_miss_read\<close> and \<open>read_empty_miss\<close> this is exactly the case in which the
  lookup returns no message) while the chat directory's entry of the requested chat
  embeds three elements, each of which carries a message with a truthy id (a history
  wrapper \<^verbatim>\<open>{message: m}\<close>, or a message object without content payload). The
  endpoint answers 200 with no warning. The response lists exactly these three messages
  (a string timestamp parsed in place), one entry for each embedded message and under its
  id, also when two of them share an id. The chat's stored array afterwards holds the
  embedded messages deduplicated by message id: of the messages with one id the first, in
  the order of the payload. When the three ids are pairwise different, no id occurs twice
  in the response and the stored array consists of the three messages.
  \<^verbatim>\<open>loadMessages\<close> is not called, whatever it would have returned.
\<close>

theorem raw_payload_fallback:
  assumes "decodeURIComponent ev param = Some jid"
    and "jm_get (sockets s) name = Some sk" and "sock_user sk"
    and "ledger_miss (decodeURIComponent ev) s name jid"
    and "chat_entry s name jid = Some c" and "embedded_of c = es"
    and "length es = 3" and "list_all embedded_valid es"
  shows "\<exists>r msgs. messages_endpoint ev s name param lim = Inr r
           \<and> response r = \<lparr>status = 200,
                             http_body = MessagesBody msgs 3 (unread_of (Some c)) jid None None\<rparr>
           \<and> length msgs = 3
           \<and> mset (map m_raw msgs) = mset (embedded_messages es)
           \<and> map m_id msgs = map key_id_of (map m_raw msgs)
           \<and> chat_ledger (state_after r) name jid = first_by_id (embedded_messages es)
           \<and> (distinct (map key_id_of (embedded_messages es)) \<longrightarrow>
                distinct (map m_id msgs)
                \<and> chat_ledger (state_after r) name jid = embedded_messages es)
           \<and> \<not> live_fetch r"
proof -
  let ?L = "requested_limit lim"
  let ?M = "embedded_messages es"
  let ?fin = "finalize (date_now ev) jid ?L ?M"
  have ne: "es \<noteq> []" using assms(7) by auto
  have len: "length ?M = 3" using assms(7,8) by (simp add: embedded_messages_length)
  have l0: "chat_ledger s name jid = []" using assms(4) by (rule ledger_miss_empty)
  note rf = raw_fallback_valid[OF assms(5,6) ne assms(8) l0]
  have tr: "\<forall>m \<in> set ?M. truthy_str (key_id_of m)" using assms(8) by (rule embedded_messages_truthy)
  have le5: "length ?M \<le> 5" using len by simp
  note fs = finalize_small[OF tr le5, of "date_now ev" jid ?L]
  have flen: "length ?fin = 3" using fs(2) len by simp
  have ids: "mset (map m_id ?fin) = mset (map key_id_of ?M)"
    using fs(1) fs(3) by (metis mset_map)
  have dist: "distinct (map m_id ?fin) \<and> chat_ledger (snd (raw_fallback s name jid)) name jid = ?M"
    if d: "distinct (map key_id_of ?M)"
  proof
    show "distinct (map m_id ?fin)" using ids d mset_eq_imp_distinct_iff by blast
    show "chat_ledger (snd (raw_fallback s name jid)) name jid = ?M"
      using rf(2) d by (simp add: first_by_id_distinct)
  qed
  have ep: "messages_endpoint ev s name param lim =
          Inr \<lparr>response = \<lparr>status = 200,
                     http_body = MessagesBody ?fin 3 (unread_of (Some c)) jid None None\<rparr>,
               state_after = snd (raw_fallback s name jid), live_fetch = False\<rparr>"
    using fallback_outcome[OF assms(1,2,3,4,5,6) ne assms(8), of lim] flen by simp
  show ?thesis
    using ep fs(1) fs(3) flen dist rf(2) by auto
qed

theorem raw_payload_fallback_witness:
  "decodeURIComponent demo_env ''4915@s.whatsapp.net'' = Some ''4915@s.whatsapp.net''
   \<and> ledger_miss (decodeURIComponent demo_env) payload_state ''main'' ''4915@s.whatsapp.net''
   \<and> chat_entry payload_state ''main'' ''4915@s.whatsapp.net'' = Some payload_chat
   \<and> embedded_of payload_chat = [Wrapped emb_one, Wrapped emb_two, Wrapped emb_three]
   \<and> list_all embedded_valid [Wrapped emb_one, Wrapped emb_two, Wrapped emb_three]
   \<and> distinct (map key_id_of (embedded_messages [Wrapped emb_one, Wrapped emb_two, Wrapped emb_three]))
   \<and> (\<exists>r msgs. messages_endpoint demo_env payload_state ''main'' ''4915@s.whatsapp.net'' (Num 1000) = Inr r
         \<and> response r = \<lparr>status = 200,
                           http_body = MessagesBody msgs 3 0 ''4915@s.whatsapp.net'' None None\<rparr>
         \<and> mset (map m_raw msgs)
            = {#emb_one\<lparr>messageTimestamp := Number (Num 1000)\<rparr>, emb_two, emb_three#}
         \<and> distinct (map m_id msgs)
         \<and> chat_ledger (state_after r) ''main'' ''4915@s.whatsapp.net''
            = [emb_one\<lparr>messageTimestamp := Number (Num 1000)\<rparr>, emb_two, emb_three]
         \<and> \<not> live_fetch r)"
proof -
  let ?J = "''4915@s.whatsapp.net''"
  let ?es = "[Wrapped emb_one, Wrapped emb_two, Wrapped emb_three]"
  have d: "decodeURIComponent demo_env ?J = Some ?J" by (simp add: demo_env_def demo_decode_def)
  have sk: "jm_get (sockets payload_state) ''main'' = Some \<lparr>sock_handle = 1, sock_user = True\<rparr>"
    by (simp add: payload_state_def empty_state_def jm_get_def)
  have lm: "ledger_miss (decodeURIComponent demo_env) payload_state ''main'' ?J"
    by (simp add: ledger_miss_def payload_state_def empty_state_def jm_get_def ledger_of_def
        demo_env_def demo_decode_def)
  have ce: "chat_entry payload_state ''main'' ?J = Some payload_chat"
    by (simp add: chat_entry_def payload_state_def empty_state_def jm_get_def)
  have eo: "embedded_of payload_chat = ?es"
    by (simp add: embedded_of_def payload_chat_def plain_chat_def)
  have va: "list_all embedded_valid ?es"
    by (simp add: embedded_valid_def emb_one_def emb_two_def emb_three_def text_msg_def
        key_id_of_def truthy_str_def)
  have di: "distinct (map key_id_of (embedded_messages ?es))"
    by (simp add: emb_norm) (simp add: key_id_of_def emb_one_def emb_two_def emb_three_def text_msg_def)
  have un: "unread_of (Some payload_chat) = 0"
    by (simp add: unread_of_def payload_chat_def plain_chat_def truthy_int_def)
  from raw_payload_fallback[OF d sk _ lm ce eo _ va, of "Num 1000"] di
  obtain r msgs where
    "messages_endpoint demo_env payload_state ''main'' ?J (Num 1000) = Inr r"
    "response r = \<lparr>status = 200, http_body = MessagesBody msgs 3 (unread_of (Some payload_chat)) ?J None None\<rparr>"
    "mset (map m_raw msgs) = mset (embedded_messages ?es)"
    "distinct (map m_id msgs)"
    "chat_ledger (state_after r) ''main'' ?J = embedded_messages ?es"
    "\<not> live_fetch r"
    by auto
  then have "\<exists>r msgs. messages_endpoint demo_env payload_state ''main'' ?J (Num 1000) = Inr r
         \<and> response r = \<lparr>status = 200, http_body = MessagesBody msgs 3 0 ?J None None\<rparr>
         \<and> mset (map m_raw msgs)
            = {#emb_one\<lparr>messageTimestamp := Number (Num 1000)\<rparr>, emb_two, emb_three#}
         \<and> distinct (map m_id msgs)
         \<and> chat_ledger (state_after r) ''main'' ?J
            = [emb_one\<lparr>messageTimestamp := Number (Num 1000)\<rparr>, emb_two, emb_three]
         \<and> \<not> live_fetch r"
    unfolding un emb_norm by (intro exI[of _ r] exI[of _ msgs]) simp
  with d lm ce eo va di show ?thesis by blast
qed

section \<open>The ceiling and the order of the response\<close>

lemma finalize_at_most_20: "length (finalize now jid lim ms) \<le> 20"
  by (simp add: finalize_def Let_def)

lemma finalize_Nil: "finalize now jid lim [] = []"
  by (simp add: finalize_def js_sort_def)

lemma response_at_most_20:
  assumes "messages_endpoint ev s name param lim = Inr r"
    and "http_body (response r) = MessagesBody msgs t u j e w"
  shows "length msgs \<le> 20"
proof -
  have lf: "length msgs \<le> 20"
    if "load_and_format ev s name jid L = Inr r" for jid L
    using that assms(2)
    by (auto simp: load_and_format_def Let_def split_beta finalize_at_most_20
        split: sum.splits if_splits)
  show ?thesis
    using assms lf
    by (auto simp: messages_endpoint_def split: option.splits if_splits sum.splits)
qed

text \<open>
  Claim C6. The response never holds more than 20 messages (\<open>response_at_most_20\<close>). Its
  order is the reversal of the sort that puts possibly unread messages first; this is not
  oldest-first as soon as the chat holds a possibly unread message and a newer message
  that is not. In the run below the ledger holds a received message of second 1000 and
  the user's reply of second 2000, both within the last 24 hours: the response lists the
  reply before the message it answers.
\<close>

theorem reversed_slice_not_chronological:
  "messages_endpoint demo_env reply_state ''main'' ''4915@s.whatsapp.net'' (Num 1000)
     = Inr \<lparr>response =
              \<lparr>status = 200,
               http_body = MessagesBody
                 [format_message 2500000 ''4915@s.whatsapp.net'' reply_msg,
                  format_message 2500000 ''4915@s.whatsapp.net'' received_msg]
                 2 0 ''4915@s.whatsapp.net'' None None\<rparr>,
            state_after = reply_state, live_fetch = False\<rparr>
   \<and> m_timestamp (format_message 2500000 ''4915@s.whatsapp.net'' reply_msg) = Some 2000000
   \<and> m_timestamp (format_message 2500000 ''4915@s.whatsapp.net'' received_msg) = Some 1000000
   \<and> mightBeUnread (format_message 2500000 ''4915@s.whatsapp.net'' received_msg)
   \<and> \<not> mightBeUnread (format_message 2500000 ''4915@s.whatsapp.net'' reply_msg)"
  by code_simp

section \<open>The close transition\<close>

text \<open>
  Claim C7. On a \<^verbatim>\<open>close\<close> update the session's socket, pending QR code and chat
  directory are removed and the entries of other sessions are untouched; the message
  ledger of every session is unchanged. With the status code \<^verbatim>\<open>loggedOut\<close> no timer is
  added; with any other status code, or none, exactly one timer is added: a restart of
  the same session name after 3000 ms.
\<close>

theorem close_transition:
  assumes "connection u = Some Close"
  shows "let s' = connection_update loggedOut toDataURL name sk u s in
           jm_get (sockets s') name = None \<and> jm_get (qrCodes s') name = None
           \<and> jm_get (sessionChats s') name = None
           \<and> sessionMessages s' = sessionMessages s
           \<and> (statusCode u = Some loggedOut \<longrightarrow> timers s' = timers s)
           \<and> (statusCode u \<noteq> Some loggedOut \<longrightarrow> timers s' = timers s @ [(3000, name)])
           \<and> (\<forall>n. n \<noteq> name \<longrightarrow>
                 jm_get (sockets s') n = jm_get (sockets s) n
                 \<and> jm_get (qrCodes s') n = jm_get (qrCodes s) n
                 \<and> jm_get (sessionChats s') n = jm_get (sessionChats s) n)"
  using assms
  by (auto simp: connection_update_def Let_def jm_get_delete_same jm_get_delete_other
      jm_get_set_other split: option.splits)

theorem close_transition_witness:
  "connection \<lparr>connection = Some Close, statusCode = Some 401, qr = None\<rparr> = Some Close
   \<and> timers (connection_update 401 Some ''main'' \<lparr>sock_handle = 1, sock_user = True\<rparr>
               \<lparr>connection = Some Close, statusCode = Some 401, qr = None\<rparr> busy_state) = []
   \<and> timers (connection_update 401 Some ''main'' \<lparr>sock_handle = 1, sock_user = True\<rparr>
               \<lparr>connection = Some Close, statusCode = Some 428, qr = None\<rparr> busy_state)
      = [(3000, ''main'')]
   \<and> jm_get (sockets (connection_update 401 Some ''main'' \<lparr>sock_handle = 1, sock_user = True\<rparr>
               \<lparr>connection = Some Close, statusCode = Some 428, qr = None\<rparr> busy_state)) ''main'' = None
   \<and> sessionMessages (connection_update 401 Some ''main'' \<lparr>sock_handle = 1, sock_user = True\<rparr>
               \<lparr>connection = Some Close, statusCode = Some 401, qr = None\<rparr> busy_state)
      = sessionMessages busy_state"
  using close_transition[of "\<lparr>connection = Some Close, statusCode = Some 401, qr = None\<rparr>"
      401 Some "''main''" "\<lparr>sock_handle = 1, sock_user = True\<rparr>" busy_state]
    close_transition[of "\<lparr>connection = Some Close, statusCode = Some 428, qr = None\<rparr>"
      401 Some "''main''" "\<lparr>sock_handle = 1, sock_user = True\<rparr>" busy_state]
  by (simp add: Let_def busy_state_def)

section \<open>Retrieval failures are answered with status 200\<close>

text \<open>
  Claim C9. Every request that passes the session check is answered with status 200. If
  the retrieval throws, the body has no messages and carries the error message in its
  warning; if the live fetch is reached and throws, the exception is swallowed and the
  body has no messages and carries the advisory warning.
\<close>

theorem retrieval_failure_is_200:
  assumes "decodeURIComponent ev param = Some jid"
    and "jm_get (sockets s) name = Some sk" and "sock_user sk"
  shows "\<exists>r. messages_endpoint ev s name param lim = Inr r \<and> status (response r) = 200
           \<and> (\<forall>e. load_and_format ev s name jid (requested_limit lim) = Inl e \<longrightarrow>
                 http_body (response r) =
                   MessagesBody [] 0 0 jid (Some (exn_message e))
                     (Some (''Error loading messages: '' @ exn_message e @
                            ''. Messages are only available if the chat was recently opened on the linked device.'')))
           \<and> (\<forall>e. live_fetch r \<and> loadMessages ev jid 10 = Inl e \<longrightarrow>
                 (\<exists>u. http_body (response r) = MessagesBody [] 0 u jid None (Some no_messages_warning)))"
proof (cases "load_and_format ev s name jid (requested_limit lim)")
  case (Inl e)
  then show ?thesis
    using assms by (simp add: messages_endpoint_def)
next
  case (Inr r)
  then have ep: "messages_endpoint ev s name param lim = Inr r"
    using assms by (simp add: messages_endpoint_def)
  have st: "status (response r) = 200"
    using Inr by (auto simp: load_and_format_def Let_def split_beta split: sum.splits)
  have lv: "\<exists>u. http_body (response r) = MessagesBody [] 0 u jid None (Some no_messages_warning)"
    if "live_fetch r" "loadMessages ev jid 10 = Inl e" for e
    using Inr that
    by (auto simp: load_and_format_def Let_def split_beta live_strategy_def finalize_Nil
        split: sum.splits if_splits)
  show ?thesis using ep st lv Inr by auto
qed


theorem retrieval_failure_is_200_witness:
  "decodeURIComponent demo_env ''%25zz'' = Some ''%zz''
   \<and> load_and_format demo_env busy_state ''main'' ''%zz'' (requested_limit (Num 1000)) = Inl URIError
   \<and> (\<exists>r. messages_endpoint demo_env busy_state ''main'' ''%25zz'' (Num 1000) = Inr r
         \<and> status (response r) = 200
         \<and> http_body (response r) =
              MessagesBody [] 0 0 ''%zz'' (Some ''URI malformed'')
                (Some ''Error loading messages: URI malformed. Messages are only available if the chat was recently opened on the linked device.''))
   \<and> loadMessages demo_env ''1203@g.us'' 10 = Inl (UpstreamError ''Timed Out'')
   \<and> (\<exists>r. messages_endpoint demo_env busy_state ''main'' ''1203@g.us'' (Num 1000) = Inr r
         \<and> live_fetch r \<and> status (response r) = 200
         \<and> http_body (response r) = MessagesBody [] 0 0 ''1203@g.us'' None (Some no_messages_warning))"
proof -
  let ?sk = "\<lparr>sock_handle = 1, sock_user = True\<rparr>"
  have sk: "jm_get (sockets busy_state) ''main'' = Some ?sk"
    by (simp add: busy_state_def jm_get_def)
  have u: "sock_user ?sk" by simp
  have d1: "decodeURIComponent demo_env ''%25zz'' = Some ''%zz''"
    by (simp add: demo_env_def demo_decode_def)
  have d2: "decodeURIComponent demo_env ''1203@g.us'' = Some ''1203@g.us''"
    by (simp add: demo_env_def demo_decode_def)
  have thrown: "load_and_format demo_env busy_state ''main'' ''%zz'' (requested_limit (Num 1000)) = Inl URIError"
    by code_simp
  have lm: "loadMessages demo_env ''1203@g.us'' 10 = Inl (UpstreamError ''Timed Out'')"
    by (simp add: demo_env_def)
  have fetched: "live_fetch r" if "messages_endpoint demo_env busy_state ''main'' ''1203@g.us'' (Num 1000) = Inr r" for r
  proof -
    have "messages_endpoint demo_env busy_state ''main'' ''1203@g.us'' (Num 1000)
            = Inr \<lparr>response = \<lparr>status = 200, http_body = MessagesBody [] 0 0 ''1203@g.us'' None (Some no_messages_warning)\<rparr>,
                   state_after = busy_state, live_fetch = True\<rparr>"
      by code_simp
    with that show ?thesis by auto
  qed
  from retrieval_failure_is_200[OF d1 sk u, of "Num 1000"] thrown
  have a: "\<exists>r. messages_endpoint demo_env busy_state ''main'' ''%25zz'' (Num 1000) = Inr r
         \<and> status (response r) = 200
         \<and> http_body (response r) =
              MessagesBody [] 0 0 ''%zz'' (Some ''URI malformed'')
                (Some ''Error loading messages: URI malformed. Messages are only available if the chat was recently opened on the linked device.'')"
    by (auto simp: exn_message_def)
  from retrieval_failure_is_200[OF d2 sk u, of "Num 1000"]
  obtain r where r: "messages_endpoint demo_env busy_state ''main'' ''1203@g.us'' (Num 1000) = Inr r"
    "status (response r) = 200"
    "\<forall>e. live_fetch r \<and> loadMessages demo_env ''1203@g.us'' 10 = Inl e \<longrightarrow>
        (\<exists>u. http_body (response r) = MessagesBody [] 0 u ''1203@g.us'' None (Some no_messages_warning))"
    by blast
  have lf: "live_fetch r" using r(1) by (rule fetched)
  with r(3) lm obtain u where "http_body (response r) = MessagesBody [] 0 u ''1203@g.us'' None (Some no_messages_warning)"
    by blast
  moreover have "b_unreadCount (http_body (response r)) = 0"
  proof -
    have "messages_endpoint demo_env busy_state ''main'' ''1203@g.us'' (Num 1000)
            = Inr \<lparr>response = \<lparr>status = 200, http_body = MessagesBody [] 0 0 ''1203@g.us'' None (Some no_messages_warning)\<rparr>,
                   state_after = busy_state, live_fetch = True\<rparr>"
      by code_simp
    with r(1) show ?thesis by auto
  qed
  ultimately have "http_body (response r) = MessagesBody [] 0 0 ''1203@g.us'' None (Some no_messages_warning)"
    by simp
  with r(1,2) lf have b: "\<exists>r. messages_endpoint demo_env busy_state ''main'' ''1203@g.us'' (Num 1000) = Inr r
         \<and> live_fetch r \<and> status (response r) = 200
         \<and> http_body (response r) = MessagesBody [] 0 0 ''1203@g.us'' None (Some no_messages_warning)"
    by blast
  show ?thesis using d1 thrown a lm b by blast
qed

section \<open>The name is replaced only while it is the sentinel\<close>

lemma name_merge_chat:
  assumes "jm_get m k = Some e" "f_name e \<noteq> ''Unknown''"
  shows "\<exists>e'. jm_get (merge_chat m f) k = Some e' \<and> f_name e' = f_name e"
proof (cases "f_id f = k")
  case True
  with assms show ?thesis
    by (simp add: merge_chat_def jm_get_set_same merge_into_def Let_def split: option.splits)
next
  case False
  with assms show ?thesis
    by (cases "jm_get m (f_id f)") (simp_all add: merge_chat_def jm_get_set_other)
qed

lemma name_foldl:
  assumes "jm_get m k = Some e" "f_name e \<noteq> ''Unknown''"
  shows "\<exists>e'. jm_get (foldl merge_chat m fs) k = Some e' \<and> f_name e' = f_name e"
  using assms
proof (induction fs arbitrary: m e)
  case Nil
  then show ?case by simp
next
  case (Cons f fs)
  from name_merge_chat[OF Cons.prems, of f]
  obtain e1 where e1: "jm_get (merge_chat m f) k = Some e1" "f_name e1 = f_name e" by blast
  with Cons.prems(2) have "f_name e1 \<noteq> ''Unknown''" by simp
  from Cons.IH[OF e1(1) this] e1(2) show ?case by simp
qed

text \<open>
  Claim C8. A merge replaces the display name exactly when the current name is
  \<^verbatim>\<open>Unknown\<close> and the incoming one is not. A record stored under some id with a name
  other than \<^verbatim>\<open>Unknown\<close> is still stored under that id with the same name after the
  loop has merged any further batch.
\<close>

theorem name_if_better:
  "f_name (merge_into e f)
     = (if f_name e = ''Unknown'' \<and> f_name f \<noteq> ''Unknown'' then f_name f else f_name e)
   \<and> (jm_get m k = Some e \<and> f_name e \<noteq> ''Unknown'' \<and> merge_loop contacts m cs = Inr m' \<longrightarrow>
        (\<exists>e'. jm_get m' k = Some e' \<and> f_name e' = f_name e))"
proof (intro conjI impI)
  show "f_name (merge_into e f)
     = (if f_name e = ''Unknown'' \<and> f_name f \<noteq> ''Unknown'' then f_name f else f_name e)"
    by (simp add: merge_into_def Let_def split: option.splits)
next
  assume a: "jm_get m k = Some e \<and> f_name e \<noteq> ''Unknown'' \<and> merge_loop contacts m cs = Inr m'"
  then have "m' = foldl merge_chat m (formatted_of contacts cs)" by (intro merge_loop_foldl) simp
  with a show "\<exists>e'. jm_get m' k = Some e' \<and> f_name e' = f_name e"
    using name_foldl[of m k e] by simp
qed


theorem name_if_better_witness:
  "format_chat alice_contacts unknown_chat = Inr (Some unknown_record)
   \<and> format_chat alice_contacts lid_chat = Inr (Some alice_record)
   \<and> f_name (merge_into unknown_record alice_record) = ''Alice''
   \<and> jm_get [(''A@s.whatsapp.net'', merge_into unknown_record alice_record)] ''A@s.whatsapp.net''
      = Some (merge_into unknown_record alice_record)
   \<and> merge_loop alice_contacts [(''A@s.whatsapp.net'', merge_into unknown_record alice_record)]
        [unknown_chat]
      = Inr [(''A@s.whatsapp.net'', merge_into (merge_into unknown_record alice_record) unknown_record)]
   \<and> f_name (merge_into (merge_into unknown_record alice_record) unknown_record) = ''Alice''"
proof -
  let ?A = "''A@s.whatsapp.net''"
  let ?e = "merge_into unknown_record alice_record"
  have fu: "format_chat alice_contacts unknown_chat = Inr (Some unknown_record)"
    by (simp add: format_chat_def unknown_chat_def plain_chat_def truthy_str_def classify_def
      endsWith_def or_else_def unread_field_def truthy_int_def unknown_record_def)
  have fl: "format_chat alice_contacts lid_chat = Inr (Some alice_record)"
    by (simp add: format_chat_def lid_chat_def plain_chat_def truthy_str_def classify_def
      endsWith_def unread_field_def truthy_int_def alice_contacts_def or_else_def alice_record_def)
  have n1: "f_name ?e = ''Alice''"
    using name_if_better[where e = unknown_record and f = alice_record]
    by (simp add: unknown_record_def alice_record_def)
  have g: "jm_get [(?A, ?e)] ?A = Some ?e" by (simp add: jm_get_def)
  have id: "f_id unknown_record = ?A" by (simp add: unknown_record_def)
  have run: "merge_loop alice_contacts [(?A, ?e)] [unknown_chat]
               = Inr [(?A, merge_into ?e unknown_record)]"
    by (simp add: fu merge_chat_def id jm_get_def)
  from name_if_better[where m = "[(?A, ?e)]" and k = ?A and e = ?e and contacts = alice_contacts
      and cs = "[unknown_chat]" and m' = "[(?A, merge_into ?e unknown_record)]"] g n1 run
  have "\<exists>e'. jm_get [(?A, merge_into ?e unknown_record)] ?A = Some e' \<and> f_name e' = f_name ?e"
    by simp
  then have n2: "f_name (merge_into ?e unknown_record) = ''Alice''"
    by (simp add: jm_get_def n1)
  show ?thesis using fu fl n1 g run n2 by simp
qed

section \<open>A read reorders the stored array\<close>







end
